theory Spec2Isabelle
  imports Main "HOL-Library.Char_ord" "HOL-Library.List_Lexorder" "HOL-Library.Multiset"
begin

section \<open>The domain cache of the Plesk API client\<close>

text \<open>
  The development embeds the cache and synchronisation methods of the class
  \<open>PleskAPIClient\<close> (the client library, \<open>lib/pleskClient\<close>): the table
  \<open>domain_cache\<close> with the SQL statements the client sends to it, the request
  wrapper \<open>executeRequest\<close>, and the methods \<open>getDomainsFromCache\<close>,
  \<open>fetchAndStoreDomains\<close>, \<open>startStatusSync\<close>, \<open>performStatusSync\<close>,
  \<open>performBackgroundSync\<close>, \<open>syncDomainBatch\<close>, \<open>updateDomainStatusInCache\<close>,
  \<open>getTestDomains\<close>, \<open>refreshDomains\<close> and the two methods called \<open>listDomains\<close>.

  Conventions of the embedding.
  \<^item> The world outside the client is explicit: the rows of the table, a clock
    (milliseconds) that \<open>NOW()\<close> and \<open>new Date()\<close> read and that a pause advances,
    and the trace of what the client did (requests sent, pauses, console lines).
  \<^item> The remote API and the storage faults are parameters: \<open>upstream\<close> answers a
    request, \<open>db_fault\<close> says whether an operation on the pool throws, and with which
    message. Both are functions of the request alone, as a stub is.
  \<^item> A JavaScript exception is the left injection of a sum; \<open>try\<close>/\<open>catch\<close> is a case
    distinction on it.
  \<^item> A field that a JSON object does not have reads as \<open>undefined\<close>, which is
    \<open>None\<close>; the empty string is falsy like it; \<open>a || b\<close> is \<open>or_else\<close>.
\<close>

subsection \<open>Rows of \<open>domain_cache\<close>\<close>

text \<open>
  \<^verbatim>\<open>id INT PRIMARY KEY, name VARCHAR(255) NOT NULL,
  status ENUM('active','suspended','disabled','unknown') DEFAULT 'unknown',
  created DATETIME, owner VARCHAR(100), hosting_type VARCHAR(50), www_root TEXT,
  ip_addresses JSON, last_updated TIMESTAMP ..., sync_error TEXT NULL\<close>

  The status is kept as the string the client binds; a server that rejects a string
  outside the enumeration is a storage fault. \<open>ip_addresses\<close> is the list itself
  (\<open>JSON.stringify\<close> on writing, \<open>JSON.parse\<close> on reading).
\<close>

datatype datetime = Stamp string | Instant nat

record row =
  row_id :: int
  name :: string
  status :: string
  created :: "datetime option"
  owner :: string
  hosting_type :: string
  www_root :: string
  ip_addresses :: "string list"
  last_updated :: nat
  sync_error :: "string option"

text \<open>
  The bound values of the two \<open>INSERT\<close> statements; \<open>None\<close> is a value that is
  \<open>undefined\<close>.
\<close>

record params =
  p_id :: int
  p_name :: "string option"
  p_created :: "datetime option"
  p_owner :: string
  p_hosting_type :: string
  p_www_root :: string
  p_ip_addresses :: "string list"

text \<open>
  Operations on the pool. \<open>InsertListing\<close> is the statement of
  \<open>fetchAndStoreDomains\<close>, \<open>InsertSynced\<close> the one of \<open>syncDomainBatch\<close> (with the
  bound status and sync error), \<open>UpdateStatus\<close> the narrow update, \<open>SelectAll\<close> the
  query of \<open>getDomainsFromCache\<close> with its optional \<open>LIKE\<close> pattern.
\<close>

datatype db_op =
    GetConnection
  | SelectAll "string option"
  | SelectIdName
  | InsertListing params
  | InsertSynced params string "string option"
  | UpdateStatus string int
  | DeleteAll

subsection \<open>What the statements do to the table\<close>

text \<open>
  \<open>INSERT ... ON DUPLICATE KEY UPDATE\<close>: the row with the key is rewritten by
  \<open>upd\<close>; without one, \<open>new\<close> is added.
\<close>

fun upsert_row :: "(row \<Rightarrow> row) \<Rightarrow> row \<Rightarrow> int \<Rightarrow> row list \<Rightarrow> row list" where
  "upsert_row upd new i [] = [new]"
| "upsert_row upd new i (r # rs) =
     (if row_id r = i then upd r # rs else r # upsert_row upd new i rs)"

text \<open>
  \<^verbatim>\<open>INSERT INTO domain_cache
  (id, name, status, created, owner, hosting_type, www_root, ip_addresses, last_updated)
  VALUES (?, ?, 'unknown', ?, ?, ?, ?, ?, NOW())
  ON DUPLICATE KEY UPDATE name = VALUES(name), created = VALUES(created),
  owner = VALUES(owner), hosting_type = VALUES(hosting_type),
  www_root = VALUES(www_root), ip_addresses = VALUES(ip_addresses),
  last_updated = NOW()\<close>
\<close>

definition insert_listing :: "nat \<Rightarrow> params \<Rightarrow> string \<Rightarrow> row list \<Rightarrow> row list" where
  "insert_listing now p n rows =
     upsert_row
       (\<lambda>r. r\<lparr>name := n, created := p_created p, owner := p_owner p,
               hosting_type := p_hosting_type p, www_root := p_www_root p,
               ip_addresses := p_ip_addresses p, last_updated := now\<rparr>)
       \<lparr>row_id = p_id p, name = n, status = ''unknown'', created = p_created p,
        owner = p_owner p, hosting_type = p_hosting_type p, www_root = p_www_root p,
        ip_addresses = p_ip_addresses p, last_updated = now, sync_error = None\<rparr>
       (p_id p) rows"

text \<open>
  \<^verbatim>\<open>INSERT INTO domain_cache
  (id, name, status, created, owner, hosting_type, www_root, ip_addresses, sync_error)
  VALUES (?, ?, ?, ?, ?, ?, ?, ?, ?)
  ON DUPLICATE KEY UPDATE name = VALUES(name), status = VALUES(status),
  created = VALUES(created), owner = VALUES(owner),
  hosting_type = VALUES(hosting_type), www_root = VALUES(www_root),
  ip_addresses = VALUES(ip_addresses), sync_error = VALUES(sync_error),
  last_updated = CURRENT_TIMESTAMP\<close>
  (a new row takes the column default \<open>CURRENT_TIMESTAMP\<close> for \<open>last_updated\<close>).
\<close>

definition insert_synced ::
  "nat \<Rightarrow> params \<Rightarrow> string \<Rightarrow> string \<Rightarrow> string option \<Rightarrow> row list \<Rightarrow> row list" where
  "insert_synced now p n st se rows =
     upsert_row
       (\<lambda>r. r\<lparr>name := n, status := st, created := p_created p, owner := p_owner p,
               hosting_type := p_hosting_type p, www_root := p_www_root p,
               ip_addresses := p_ip_addresses p, last_updated := now,
               sync_error := se\<rparr>)
       \<lparr>row_id = p_id p, name = n, status = st, created = p_created p,
        owner = p_owner p, hosting_type = p_hosting_type p, www_root = p_www_root p,
        ip_addresses = p_ip_addresses p, last_updated = now, sync_error = se\<rparr>
       (p_id p) rows"

text \<open>\<^verbatim>\<open>UPDATE domain_cache SET status = ?, last_updated = NOW() WHERE id = ?\<close>\<close>

definition update_status :: "nat \<Rightarrow> string \<Rightarrow> int \<Rightarrow> row list \<Rightarrow> row list" where
  "update_status now st i rows =
     map (\<lambda>r. if row_id r = i then r\<lparr>status := st, last_updated := now\<rparr> else r) rows"

text \<open>
  A write at time \<open>now\<close>. A bound value that is \<open>undefined\<close> makes
  \<open>connection.execute\<close> throw before anything is sent: the name of an element that
  has neither \<open>name\<close> nor \<open>ascii_name\<close>, and in the statement of
  \<open>fetchAndStoreDomains\<close> the creation time of an element that has neither
  \<open>created\<close> nor \<open>created_at\<close> (the statement of \<open>syncDomainBatch\<close> falls
  back to \<open>new Date()\<close>). The queries leave the table as it is.
\<close>

definition bind_undefined :: string where
  "bind_undefined = ''Bind parameters must not contain undefined''"

fun apply_write :: "nat \<Rightarrow> db_op \<Rightarrow> row list \<Rightarrow> string + row list" where
  "apply_write now (InsertListing p) rows =
     (case p_name p of
        None \<Rightarrow> Inl bind_undefined
      | Some n \<Rightarrow>
          (case p_created p of
             None \<Rightarrow> Inl bind_undefined
           | Some c \<Rightarrow> Inr (insert_listing now p n rows)))"
| "apply_write now (InsertSynced p st se) rows =
     (case p_name p of
        None \<Rightarrow> Inl bind_undefined
      | Some n \<Rightarrow> Inr (insert_synced now p n st se rows))"
| "apply_write now (UpdateStatus st i) rows = Inr (update_status now st i rows)"
| "apply_write now DeleteAll rows = Inr []"
| "apply_write now GetConnection rows = Inr rows"
| "apply_write now (SelectAll f) rows = Inr rows"
| "apply_write now SelectIdName rows = Inr rows"

subsection \<open>JavaScript values\<close>

text \<open>
  \<open>a || b\<close> on values that are \<open>undefined\<close> or strings: the empty string is
  falsy, like \<open>undefined\<close>.
\<close>

definition truthy :: "string option \<Rightarrow> bool" where
  "truthy a = (case a of None \<Rightarrow> False | Some v \<Rightarrow> v \<noteq> [])"

definition or_else :: "string option \<Rightarrow> string option \<Rightarrow> string option" where
  "or_else a b = (if truthy a then a else b)"

definition or_default :: "string option \<Rightarrow> string \<Rightarrow> string" where
  "or_default a d = (case a of None \<Rightarrow> d | Some v \<Rightarrow> if v \<noteq> [] then v else d)"

text \<open>\<open>toLowerCase\<close> on the letters of ASCII, the alphabet of domain names.\<close>

definition to_lower :: "char \<Rightarrow> char" where
  "to_lower c = (let n = (of_char c :: nat) in if 65 \<le> n \<and> n \<le> 90 then char_of (n + 32) else c)"

definition toLowerCase :: "string \<Rightarrow> string" where
  "toLowerCase s = map to_lower s"

text \<open>\<open>s.includes(f)\<close>: \<open>f\<close> occurs in \<open>s\<close>.\<close>

fun includes_str :: "string \<Rightarrow> string \<Rightarrow> bool" where
  "includes_str [] f = (f = [])"
| "includes_str (c # cs) f = (take (length f) (c # cs) = f \<or> includes_str cs f)"

text \<open>Numbers in template strings.\<close>

fun decimal :: "nat \<Rightarrow> string" where
  "decimal n =
     (if n < 10 then [''0123456789'' ! n]
      else decimal (n div 10) @ [''0123456789'' ! (n mod 10)])"

declare decimal.simps [simp del]

definition show_int :: "int \<Rightarrow> string" where
  "show_int i = (if i < 0 then CHR ''-'' # decimal (nat (- i)) else decimal (nat i))"

text \<open>\<open>xs.slice(a, b)\<close> for indices within the natural numbers.\<close>

definition slice :: "'a list \<Rightarrow> nat \<Rightarrow> nat \<Rightarrow> 'a list" where
  "slice xs a b = take (b - a) (drop a xs)"

subsection \<open>The queries\<close>

text \<open>
  \<open>name LIKE ?\<close> under the table's collation \<open>utf8mb4_unicode_ci\<close>, which does
  not distinguish case: \<open>%\<close> stands for any run of characters, \<open>_\<close> for one
  character, and a backslash makes the next character literal.
\<close>

fun sql_like :: "string \<Rightarrow> string \<Rightarrow> bool" where
  "sql_like [] s = (s = [])"
| "sql_like (p # ps) [] = (p = CHR ''%'' \<and> sql_like ps [])"
| "sql_like (p # ps) (c # cs) =
     (if p = CHR ''%'' then sql_like ps (c # cs) \<or> sql_like (p # ps) cs
      else if p = CHR ''_'' then sql_like ps cs
      else if p = CHR 0x5C then
        (case ps of
           [] \<Rightarrow> c = p \<and> cs = []
         | q # qs \<Rightarrow> to_lower q = to_lower c \<and> sql_like qs cs)
      else to_lower p = to_lower c \<and> sql_like ps cs)"

text \<open>
  \<^verbatim>\<open>SELECT * FROM domain_cache WHERE 1=1 [AND name LIKE ?] ORDER BY name\<close>
\<close>

definition select_all :: "string option \<Rightarrow> row list \<Rightarrow> row list" where
  "select_all pat rows =
     sort_key (\<lambda>r. toLowerCase (name r))
       (filter (\<lambda>r. case pat of None \<Rightarrow> True | Some p \<Rightarrow> sql_like p (name r)) rows)"

text \<open>
  \<^verbatim>\<open>SELECT id, name FROM domain_cache ORDER BY last_updated ASC\<close>
  (rows of equal \<open>last_updated\<close> in the order of the table).
\<close>

definition select_id_name :: "row list \<Rightarrow> (int \<times> string) list" where
  "select_id_name rows = map (\<lambda>r. (row_id r, name r)) (sort_key last_updated rows)"

subsection \<open>The client, its environment and the trace\<close>

text \<open>An element of the listing \<open>GET /domains\<close>, with the fields the client reads.\<close>

record domain =
  d_id :: int
  d_name :: "string option"
  ascii_name :: "string option"
  d_created :: "string option"
  created_at :: "string option"
  d_owner :: "string option"
  owner_login :: "string option"
  d_hosting_type :: "string option"
  d_www_root :: "string option"
  d_ip_addresses :: "string list option"

text \<open>
  The endpoints the cache methods request: \<open>/domains\<close>, with \<open>?name=\<close> and the
  encoded name when one is given, and \<open>/domains/${id}/status\<close>.
\<close>

datatype endpoint = Domains "string option" | DomainStatus int

text \<open>
  A response body: an array of listing elements, an object with string fields, or
  nothing.
\<close>

datatype payload = Items "domain list" | Fields "(string \<times> string) list" | NoData

fun field :: "payload \<Rightarrow> string \<Rightarrow> string option" where
  "field (Fields fs) k = map_of fs k"
| "field (Items ds) k = None"
| "field NoData k = None"

text \<open>
  What the HTTP client does with a request: it resolves with \<open>data\<close> and \<open>status\<close>,
  or rejects with an error that has a \<open>message\<close> and, when the server answered, a
  \<open>response\<close> with \<open>data\<close> and \<open>status\<close>.
\<close>

datatype http_outcome =
    Resolved payload nat
  | Rejected string "(payload \<times> nat) option"

text \<open>
  The result of \<open>executeRequest\<close>: \<open>{success: true, data, status}\<close> or
  \<open>{success: false, error, details, status}\<close>.
\<close>

datatype api_result =
    Success payload nat
  | Failure string "payload option" nat

datatype event = Request string endpoint | Sleep nat | Log string

text \<open>
  The environment of a client: the remote API, the storage faults, and what
  \<open>JSON.parse(row.ip_addresses)\<close> gives for the stored list of addresses. Where the
  driver hands the column over as the text that \<open>JSON.stringify\<close> wrote (a text
  column, as \<open>JSON\<close> is in MariaDB), parsing gives the list back; where it hands over
  the parsed value (a column of the type \<open>JSON\<close> in MySQL), \<open>JSON.parse\<close> is
  applied to an array and throws unless the array happens to read as JSON text.
\<close>

record env =
  upstream :: "string \<Rightarrow> endpoint \<Rightarrow> http_outcome"
  db_fault :: "db_op \<Rightarrow> string option"
  parse_ip_addresses :: "string list \<Rightarrow> string + string list"

text \<open>
  The fields \<open>this.dbPool\<close> (set or not) and \<open>this.statusSyncRunning\<close>, the table,
  the clock, the trace, and the number of runs of \<open>performStatusSync\<close> that were
  started and have not settled yet.
\<close>

record state =
  dbPool :: bool
  statusSyncRunning :: bool
  table :: "row list"
  clock :: nat
  trace :: "event list"
  running :: nat

definition emit :: "event \<Rightarrow> state \<Rightarrow> state" where
  "emit e s = s\<lparr>trace := trace s @ [e]\<rparr>"

text \<open>\<open>console.log\<close> and \<open>console.error\<close>.\<close>

definition console :: "string \<Rightarrow> state \<Rightarrow> state" where
  "console msg s = emit (Log msg) s"

text \<open>\<^verbatim>\<open>await new Promise((resolve) => setTimeout(resolve, delay))\<close>\<close>

definition sleep :: "nat \<Rightarrow> state \<Rightarrow> state" where
  "sleep delay s = emit (Sleep delay) (s\<lparr>clock := clock s + delay\<rparr>)"

text \<open>
  \<open>this.dbPool.getConnection()\<close>: reading the method of an unset pool throws.
\<close>

definition getConnection :: "env \<Rightarrow> state \<Rightarrow> (string + unit) \<times> state" where
  "getConnection env s =
     (if \<not> dbPool s then (Inl ''Cannot read properties of null'', s)
      else case db_fault env GetConnection of
             Some msg \<Rightarrow> (Inl msg, s)
           | None \<Rightarrow> (Inr (), s))"

text \<open>\<open>connection.execute\<close> of a statement that writes.\<close>

definition execute :: "env \<Rightarrow> db_op \<Rightarrow> state \<Rightarrow> (string + unit) \<times> state" where
  "execute env op s =
     (case db_fault env op of
        Some msg \<Rightarrow> (Inl msg, s)
      | None \<Rightarrow>
          (case apply_write (clock s) op (table s) of
             Inl msg \<Rightarrow> (Inl msg, s)
           | Inr rows \<Rightarrow> (Inr (), s\<lparr>table := rows\<rparr>)))"

subsection \<open>\<open>executeRequest\<close>\<close>

text \<open>
  \<^verbatim>\<open>try { const response = await this.client(config);
        return { success: true, data: response.data, status: response.status };
  } catch (error) {
        console.error('Plesk API request failed:', error.message);
        let errorMessage = error.message; let errorDetails = null;
        if (error.response) {
          errorMessage = error.response.data?.message || error.message;
          errorDetails = error.response.data; }
        return { success: false, error: errorMessage, details: errorDetails,
                 status: error.response?.status || 500 }; }\<close>
  The cache methods send \<open>GET\<close> requests only, which carry no body.
\<close>

definition executeRequest ::
  "env \<Rightarrow> string \<Rightarrow> endpoint \<Rightarrow> state \<Rightarrow> (string + api_result) \<times> state" where
  "executeRequest env method ep s =
     (let s1 = emit (Request (toLowerCase method) ep) s in
      case upstream env (toLowerCase method) ep of
        Resolved d st \<Rightarrow> (Inr (Success d st), s1)
      | Rejected msg resp \<Rightarrow>
          (let s2 = console (''Plesk API request failed: '' @ msg) s1 in
           case resp of
             None \<Rightarrow> (Inr (Failure msg None 500), s2)
           | Some (d, st) \<Rightarrow>
               (Inr (Failure (or_default (field d ''message'') msg) (Some d)
                       (if st = 0 then 500 else st)), s2)))"

subsection \<open>Reading the cache: \<open>getDomainsFromCache\<close>\<close>

text \<open>
  The objects the listing methods return. The fallback objects of \<open>getTestDomains\<close>
  have no \<open>hosting_type\<close> and no \<open>www_root\<close>.
\<close>

record view =
  v_id :: int
  v_name :: string
  v_status :: string
  v_created :: "datetime option"
  v_owner :: string
  v_hosting_type :: "string option"
  v_www_root :: "string option"
  v_ipAddresses :: "string list"

text \<open>
  \<^verbatim>\<open>rows.map((row) => ({ id: row.id, name: row.name, status: row.status || 'unknown',
     created: row.created, owner: row.owner, hosting_type: row.hosting_type,
     www_root: row.www_root,
     ipAddresses: row.ip_addresses ? JSON.parse(row.ip_addresses) : [] }))\<close>
  \<open>row_object\<close> is the object for a row, given the addresses that were parsed;
  \<open>row_view\<close> parses and builds it, or throws what the parsing throws; \<open>row_views\<close>
  is the \<open>map\<close> over the rows, which ends at the first exception.
\<close>

definition row_object :: "row \<Rightarrow> string list \<Rightarrow> view" where
  "row_object r ips =
     \<lparr>v_id = row_id r, v_name = name r,
      v_status = (if status r \<noteq> [] then status r else ''unknown''),
      v_created = created r, v_owner = owner r,
      v_hosting_type = Some (hosting_type r), v_www_root = Some (www_root r),
      v_ipAddresses = ips\<rparr>"

definition row_view :: "env \<Rightarrow> row \<Rightarrow> string + view" where
  "row_view env r =
     (case parse_ip_addresses env (ip_addresses r) of
        Inl e \<Rightarrow> Inl e
      | Inr ips \<Rightarrow> Inr (row_object r ips))"

fun row_views :: "env \<Rightarrow> row list \<Rightarrow> string + view list" where
  "row_views env [] = Inr []"
| "row_views env (r # rs) =
     (case row_view env r of
        Inl e \<Rightarrow> Inl e
      | Inr v \<Rightarrow>
          (case row_views env rs of
             Inl e \<Rightarrow> Inl e
           | Inr vs \<Rightarrow> Inr (v # vs)))"

definition query_all :: "env \<Rightarrow> string option \<Rightarrow> state \<Rightarrow> (string + row list) \<times> state" where
  "query_all env pat s =
     (case db_fault env (SelectAll pat) of
        Some msg \<Rightarrow> (Inl msg, s)
      | None \<Rightarrow> (Inr (select_all pat (table s)), s))"

definition query_id_name :: "env \<Rightarrow> state \<Rightarrow> (string + (int \<times> string) list) \<times> state" where
  "query_id_name env s =
     (case db_fault env SelectIdName of
        Some msg \<Rightarrow> (Inl msg, s)
      | None \<Rightarrow> (Inr (select_id_name (table s)), s))"

text \<open>
  \<^verbatim>\<open>if (nameFilter) { query += ' AND name LIKE ?'; params.push(`%${nameFilter}%`); }\<close>
\<close>

definition like_pattern :: "string option \<Rightarrow> string option" where
  "like_pattern nameFilter =
     (case nameFilter of
        None \<Rightarrow> None
      | Some f \<Rightarrow> if f \<noteq> [] then Some (''%'' @ f @ ''%'') else None)"

text \<open>The \<open>try\<close> block of \<open>getDomainsFromCache\<close>, and the method with its \<open>catch\<close>.\<close>

definition getDomainsFromCache_try ::
  "env \<Rightarrow> string option \<Rightarrow> state \<Rightarrow> (string + view list) \<times> state" where
  "getDomainsFromCache_try env nameFilter s =
     (if \<not> dbPool s then (Inr [], s)
      else case getConnection env s of
             (Inl e, s1) \<Rightarrow> (Inl e, s1)
           | (Inr u, s1) \<Rightarrow>
               (case query_all env (like_pattern nameFilter) s1 of
                  (Inl e, s2) \<Rightarrow> (Inl e, s2)
                | (Inr rows, s2) \<Rightarrow>
                    (case row_views env rows of
                       Inl e \<Rightarrow> (Inl e, s2)
                     | Inr views \<Rightarrow> (Inr views, s2))))"

definition getDomainsFromCache ::
  "env \<Rightarrow> string option \<Rightarrow> state \<Rightarrow> (string + view list) \<times> state" where
  "getDomainsFromCache env nameFilter s =
     (case getDomainsFromCache_try env nameFilter s of
        (Inl msg, s1) \<Rightarrow> (Inr [], console (''Cache not available: '' @ msg) s1)
      | (Inr views, s1) \<Rightarrow> (Inr views, s1))"

subsection \<open>\<open>fetchAndStoreDomains\<close>\<close>

text \<open>
  \<^verbatim>\<open>[domain.id, domain.name || domain.ascii_name, domain.created || domain.created_at,
   domain.owner || domain.owner_login || 'admin', domain.hosting_type || 'virtual',
   domain.www_root || '', JSON.stringify(domain.ip_addresses || [])]\<close>
  The creation time has no last fallback here: for an element with neither \<open>created\<close>
  nor \<open>created_at\<close> the bound value is \<open>undefined\<close>, that is \<open>None\<close>, and the insert
  throws (\<open>apply_write\<close>).
\<close>

definition listing_params :: "domain \<Rightarrow> params" where
  "listing_params d =
     \<lparr>p_id = d_id d,
      p_name = or_else (d_name d) (ascii_name d),
      p_created = map_option Stamp (or_else (d_created d) (created_at d)),
      p_owner = or_default (or_else (d_owner d) (owner_login d)) ''admin'',
      p_hosting_type = or_default (d_hosting_type d) ''virtual'',
      p_www_root = or_default (d_www_root d) [],
      p_ip_addresses = (case d_ip_addresses d of None \<Rightarrow> [] | Some ips \<Rightarrow> ips)\<rparr>"

text \<open>\<open>for (const domain of domains) { await connection.execute(...) }\<close>\<close>

fun store_listing :: "env \<Rightarrow> domain list \<Rightarrow> state \<Rightarrow> (string + unit) \<times> state" where
  "store_listing env [] s = (Inr (), s)"
| "store_listing env (d # ds) s =
     (case execute env (InsertListing (listing_params d)) s of
        (Inl e, s1) \<Rightarrow> (Inl e, s1)
      | (Inr u, s1) \<Rightarrow> store_listing env ds s1)"

text \<open>\<open>{ success: true, count }\<close> or \<open>{ success: false, error }\<close>.\<close>

datatype fetch_result = Fetched nat | FetchError string

text \<open>\<open>Array.isArray(response.data) ? response.data : []\<close>\<close>

fun listing_of :: "payload \<Rightarrow> domain list" where
  "listing_of (Items ds) = ds"
| "listing_of (Fields fs) = []"
| "listing_of NoData = []"

definition fetchAndStoreDomains_try :: "env \<Rightarrow> state \<Rightarrow> (string + fetch_result) \<times> state" where
  "fetchAndStoreDomains_try env s =
     (case executeRequest env ''GET'' (Domains None) s of
        (Inl e, s1) \<Rightarrow> (Inl e, s1)
      | (Inr (Failure err details st), s1) \<Rightarrow> (Inr (FetchError err), s1)
      | (Inr (Success d st), s1) \<Rightarrow>
          (let domains = listing_of d;
               s2 = console (''Fetched '' @ decimal (length domains)
                             @ '' domains from Plesk, storing in cache...'') s1
           in if dbPool s2 then
                (case getConnection env s2 of
                   (Inl e, s3) \<Rightarrow> (Inl e, s3)
                 | (Inr u, s3) \<Rightarrow>
                     (case store_listing env domains s3 of
                        (Inl e, s4) \<Rightarrow> (Inl e, s4)
                      | (Inr u, s4) \<Rightarrow> (Inr (Fetched (length domains)), s4)))
              else (Inr (Fetched (length domains)), s2)))"

definition fetchAndStoreDomains :: "env \<Rightarrow> state \<Rightarrow> (string + fetch_result) \<times> state" where
  "fetchAndStoreDomains env s =
     (case fetchAndStoreDomains_try env s of
        (Inl msg, s1) \<Rightarrow>
          (Inr (FetchError msg), console (''Error fetching domains from Plesk: '' @ msg) s1)
      | (Inr r, s1) \<Rightarrow> (Inr r, s1))"

subsection \<open>The status sync: \<open>startStatusSync\<close> and \<open>performStatusSync\<close>\<close>

text \<open>
  \<^verbatim>\<open>if (statusResponse.success && statusResponse.data && statusResponse.data.status)
     status = statusResponse.data.status;\<close> and \<open>'unknown'\<close> otherwise.
\<close>

fun response_status :: "api_result \<Rightarrow> string" where
  "response_status (Success d st) = or_default (field d ''status'') ''unknown''"
| "response_status (Failure err details st) = ''unknown''"

text \<open>
  The body of \<open>for (const domain of batch)\<close>: its \<open>try\<close> block, and the block with
  its \<open>catch\<close>. A domain is the pair \<open>(id, name)\<close> the query selected.
\<close>

definition statusSyncItem_try ::
  "env \<Rightarrow> int \<times> string \<Rightarrow> state \<Rightarrow> (string + unit) \<times> state" where
  "statusSyncItem_try env domain s =
     (case executeRequest env ''GET'' (DomainStatus (fst domain)) s of
        (Inl e, s1) \<Rightarrow> (Inl e, s1)
      | (Inr statusResponse, s1) \<Rightarrow>
          (let st = response_status statusResponse in
           case execute env (UpdateStatus st (fst domain)) s1 of
             (Inl e, s2) \<Rightarrow> (Inl e, s2)
           | (Inr u, s2) \<Rightarrow> (Inr (), console (''Updated '' @ snd domain @ '': '' @ st) s2)))"

definition statusSyncItem :: "env \<Rightarrow> int \<times> string \<Rightarrow> state \<Rightarrow> state" where
  "statusSyncItem env domain s =
     (case statusSyncItem_try env domain s of
        (Inl msg, s1) \<Rightarrow> console (''Error updating '' @ snd domain @ '': '' @ msg) s1
      | (Inr u, s1) \<Rightarrow> s1)"

definition statusSyncBatch :: "env \<Rightarrow> (int \<times> string) list \<Rightarrow> state \<Rightarrow> state" where
  "statusSyncBatch env batch s = foldl (\<lambda>s1 domain. statusSyncItem env domain s1) s batch"

text \<open>
  \<^verbatim>\<open>const batchSize = 5; const delay = 3000;
  for (let i = 0; i < domains.length; i += batchSize) {
     const batch = domains.slice(i, i + batchSize);
     for (const domain of batch) { ... }
     if (i + batchSize < domains.length) {
        console.log(`Processed batch ${Math.floor(i / batchSize) + 1}, waiting ${delay / 1000}s...`);
        await new Promise((resolve) => setTimeout(resolve, delay)); } }\<close>
\<close>

function statusSyncLoop :: "env \<Rightarrow> (int \<times> string) list \<Rightarrow> nat \<Rightarrow> state \<Rightarrow> state" where
  "statusSyncLoop env domains i s =
     (if i < length domains then
        statusSyncLoop env domains (i + 5)
          (let s1 = statusSyncBatch env (slice domains i (i + 5)) s
           in if i + 5 < length domains then
                sleep 3000
                  (console (''Processed batch '' @ decimal (i div 5 + 1) @ '', waiting ''
                            @ decimal (3000 div 1000) @ ''s...'') s1)
              else s1)
      else s)"
  by pat_completeness auto
termination
  by (relation "measure (\<lambda>(env, domains, i, s). length domains - i)") auto

declare statusSyncLoop.simps [simp del]

definition performStatusSync_try :: "env \<Rightarrow> state \<Rightarrow> (string + unit) \<times> state" where
  "performStatusSync_try env s =
     (if \<not> dbPool s then (Inr (), s)
      else
        (let s0 = console ''Starting background status sync...'' s in
         case getConnection env s0 of
           (Inl e, s1) \<Rightarrow> (Inl e, s1)
         | (Inr u, s1) \<Rightarrow>
             (case query_id_name env s1 of
                (Inl e, s2) \<Rightarrow> (Inl e, s2)
              | (Inr domains, s2) \<Rightarrow>
                  (let s3 = console (''Syncing status for '' @ decimal (length domains)
                                     @ '' domains...'') s2;
                       s4 = statusSyncLoop env domains 0 s3
                   in (Inr (), console ''Background status sync completed'' s4)))))"

definition performStatusSync :: "env \<Rightarrow> state \<Rightarrow> (string + unit) \<times> state" where
  "performStatusSync env s =
     (case performStatusSync_try env s of
        (Inl msg, s1) \<Rightarrow> (Inr (), console (''Error in status sync: '' @ msg) s1)
      | (Inr u, s1) \<Rightarrow> (Inr u, s1))"

text \<open>
  \<^verbatim>\<open>if (this.statusSyncRunning) { console.log('Status sync already running'); return; }
  this.statusSyncRunning = true;
  this.performStatusSync().catch(...).finally(() => { this.statusSyncRunning = false; });\<close>
  The call starts a run and returns; the run goes on in the background.
\<close>

definition startStatusSync :: "state \<Rightarrow> state" where
  "startStatusSync s =
     (if statusSyncRunning s then console ''Status sync already running'' s
      else s\<lparr>statusSyncRunning := True, running := Suc (running s)\<rparr>)"

text \<open>
  What \<open>.catch\<close> and \<open>.finally\<close> do once the promise of a run has settled, with
  the outcome of the run: \<open>.catch\<close> logs a rejection, \<open>.finally\<close> resets the flag.
\<close>

definition settle :: "(string + unit) \<times> state \<Rightarrow> state" where
  "settle outcome =
     (let s2 = (case outcome of
                  (Inl msg, s1) \<Rightarrow> console (''Background status sync failed: '' @ msg) s1
                | (Inr u, s1) \<Rightarrow> s1)
      in s2\<lparr>statusSyncRunning := False, running := running s2 - 1\<rparr>)"

text \<open>
  A started run does its work and settles. Nothing settles when no run is in flight.
\<close>

definition statusSyncSettles :: "env \<Rightarrow> state \<Rightarrow> state" where
  "statusSyncSettles env s =
     (if running s = 0 then s else settle (performStatusSync env s))"

subsection \<open>The combined sync: \<open>performBackgroundSync\<close> and \<open>syncDomainBatch\<close>\<close>

text \<open>
  \<^verbatim>\<open>[domain.id, domain.name || domain.ascii_name, status,
   domain.created || domain.created_at || new Date(),
   domain.owner || domain.owner_login || 'admin', domain.hosting_type || 'virtual',
   domain.www_root || '', JSON.stringify(domain.ip_addresses || []), syncError]\<close>
\<close>

definition synced_params :: "nat \<Rightarrow> domain \<Rightarrow> params" where
  "synced_params now d =
     \<lparr>p_id = d_id d,
      p_name = or_else (d_name d) (ascii_name d),
      p_created =
        Some (case or_else (d_created d) (created_at d) of
                None \<Rightarrow> Instant now
              | Some t \<Rightarrow> if t \<noteq> [] then Stamp t else Instant now),
      p_owner = or_default (or_else (d_owner d) (owner_login d)) ''admin'',
      p_hosting_type = or_default (d_hosting_type d) ''virtual'',
      p_www_root = or_default (d_www_root d) [],
      p_ip_addresses = (case d_ip_addresses d of None \<Rightarrow> [] | Some ips \<Rightarrow> ips)\<rparr>"

text \<open>
  The body of \<open>for (const domain of domains)\<close> in \<open>syncDomainBatch\<close>. The inner
  \<open>try\<close> fetches the status; its \<open>catch\<close> sets \<open>syncError\<close> to the message of what
  was thrown. The outer \<open>try\<close> covers the insert as well.
  \<^verbatim>\<open>let status = 'unknown'; let syncError = null;
  try { const statusResponse = await this.executeRequest('GET', `/domains/${domain.id}/status`);
        if (statusResponse.success && statusResponse.data && statusResponse.data.status)
           status = statusResponse.data.status;
  } catch (statusError) { syncError = statusError.message; console.log(...); }
  await connection.execute(`INSERT ...`, [...]);\<close>
\<close>

definition fetch_status :: "env \<Rightarrow> domain \<Rightarrow> state \<Rightarrow> (string \<times> string option) \<times> state" where
  "fetch_status env d s =
     (case executeRequest env ''GET'' (DomainStatus (d_id d)) s of
        (Inl msg, s1) \<Rightarrow>
          ((''unknown'', Some msg),
           console (''Error fetching status for domain '' @ show_int (d_id d) @ '': '' @ msg) s1)
      | (Inr statusResponse, s1) \<Rightarrow> ((response_status statusResponse, None), s1))"

definition syncDomain_try :: "env \<Rightarrow> domain \<Rightarrow> state \<Rightarrow> (string + unit) \<times> state" where
  "syncDomain_try env d s =
     (case fetch_status env d s of
        ((st, syncError), s1) \<Rightarrow>
          execute env (InsertSynced (synced_params (clock s1) d) st syncError) s1)"

definition syncDomain :: "env \<Rightarrow> domain \<Rightarrow> state \<Rightarrow> state" where
  "syncDomain env d s =
     (case syncDomain_try env d s of
        (Inl msg, s1) \<Rightarrow>
          console (''Error syncing domain '' @ show_int (d_id d) @ '': '' @ msg) s1
      | (Inr u, s1) \<Rightarrow> s1)"

definition syncDomainBatch :: "env \<Rightarrow> domain list \<Rightarrow> state \<Rightarrow> state" where
  "syncDomainBatch env domains s = foldl (\<lambda>s1 d. syncDomain env d s1) s domains"

text \<open>
  \<^verbatim>\<open>const batchSize = 10; const delay = 2000; // 2 second delay between batches
  for (let i = 0; i < domains.length; i += batchSize) {
     const batch = domains.slice(i, i + batchSize);
     console.log(`Syncing batch ${Math.floor(i / batchSize) + 1}/${Math.ceil(domains.length / batchSize)} (${batch.length} domains)`);
     await this.syncDomainBatch(connection, batch);
     // Wait before next batch (except for last batch)
     if (i + batchSize < domains.length)
        await new Promise((resolve) => setTimeout(resolve, delay)); }\<close>
\<close>

function backgroundSyncLoop :: "env \<Rightarrow> domain list \<Rightarrow> nat \<Rightarrow> state \<Rightarrow> state" where
  "backgroundSyncLoop env domains i s =
     (if i < length domains then
        backgroundSyncLoop env domains (i + 10)
          (let batch = slice domains i (i + 10);
               s1 = console (''Syncing batch '' @ decimal (i div 10 + 1) @ ''/''
                             @ decimal ((length domains + 9) div 10) @ '' (''
                             @ decimal (length batch) @ '' domains)'') s;
               s2 = syncDomainBatch env batch s1
           in if i + 10 < length domains then sleep 2000 s2 else s2)
      else s)"
  by pat_completeness auto
termination
  by (relation "measure (\<lambda>(env, domains, i, s). length domains - i)") auto

declare backgroundSyncLoop.simps [simp del]

text \<open>
  The \<open>try\<close> block of \<open>performBackgroundSync\<close>: a failed listing is thrown
  (\<open>throw new Error(response.error)\<close>).
\<close>

definition performBackgroundSync_try :: "env \<Rightarrow> state \<Rightarrow> (string + unit) \<times> state" where
  "performBackgroundSync_try env s =
     (case executeRequest env ''GET'' (Domains None) s of
        (Inl e, s1) \<Rightarrow> (Inl e, s1)
      | (Inr (Failure err details st), s1) \<Rightarrow> (Inl err, s1)
      | (Inr (Success d st), s1) \<Rightarrow>
          (let domains = listing_of d;
               s2 = console (''Found '' @ decimal (length domains) @ '' domains to sync'') s1
           in case getConnection env s2 of
                (Inl e, s3) \<Rightarrow> (Inl e, s3)
              | (Inr u, s3) \<Rightarrow>
                  (let s4 = backgroundSyncLoop env domains 0 s3
                   in (Inr (),
                       console (''Background domain sync completed successfully for ''
                                @ decimal (length domains) @ '' domains'') s4))))"

definition performBackgroundSync :: "env \<Rightarrow> state \<Rightarrow> (string + unit) \<times> state" where
  "performBackgroundSync env s =
     (case performBackgroundSync_try env
             (console ''Starting background domain sync...'' s) of
        (Inl msg, s1) \<Rightarrow> (Inr (), console (''Background domain sync failed: '' @ msg) s1)
      | (Inr u, s1) \<Rightarrow> (Inr u, s1))"

text \<open>
  \<open>syncDomainsInBackground\<close> starts \<open>performBackgroundSync\<close> and does not wait;
  its \<open>.catch\<close> logs a rejection.
\<close>

definition syncDomainsInBackground :: "env \<Rightarrow> state \<Rightarrow> state" where
  "syncDomainsInBackground env s =
     (case performBackgroundSync env s of
        (Inl msg, s1) \<Rightarrow> console (''Background domain sync failed: '' @ msg) s1
      | (Inr u, s1) \<Rightarrow> s1)"

subsection \<open>\<open>updateDomainStatusInCache\<close>\<close>

text \<open>
  \<^verbatim>\<open>try { const connection = await this.dbPool.getConnection();
    await connection.execute(
      'UPDATE domain_cache SET status = ?, last_updated = CURRENT_TIMESTAMP WHERE id = ?',
      [status, domainId]);
    connection.release();
  } catch (error) { console.error('Error updating domain status in cache:', error.message); }\<close>
\<close>

definition updateDomainStatusInCache_try ::
  "env \<Rightarrow> int \<Rightarrow> string \<Rightarrow> state \<Rightarrow> (string + unit) \<times> state" where
  "updateDomainStatusInCache_try env domainId st s =
     (case getConnection env s of
        (Inl e, s1) \<Rightarrow> (Inl e, s1)
      | (Inr u, s1) \<Rightarrow> execute env (UpdateStatus st domainId) s1)"

definition updateDomainStatusInCache ::
  "env \<Rightarrow> int \<Rightarrow> string \<Rightarrow> state \<Rightarrow> (string + unit) \<times> state" where
  "updateDomainStatusInCache env domainId st s =
     (case updateDomainStatusInCache_try env domainId st s of
        (Inl msg, s1) \<Rightarrow>
          (Inr (), console (''Error updating domain status in cache: '' @ msg) s1)
      | (Inr u, s1) \<Rightarrow> (Inr u, s1))"

subsection \<open>\<open>getTestDomains\<close> and \<open>refreshDomains\<close>\<close>

text \<open>
  What a listing method returns: \<open>{ success: true, data, message }\<close>, with
  \<open>fromCache\<close> when the method sets it, or the result of \<open>executeRequest\<close>.
\<close>

datatype list_result =
    Listed "view list" string "bool option"
  | Forwarded api_result

definition testDomains :: "view list" where
  "testDomains =
     [\<lparr>v_id = 1, v_name = ''example.com'', v_status = ''active'',
       v_created = Some (Stamp ''2024-01-15T10:30:00.000Z''), v_owner = ''admin'',
       v_hosting_type = None, v_www_root = None, v_ipAddresses = [''192.168.1.100'']\<rparr>,
      \<lparr>v_id = 2, v_name = ''test.org'', v_status = ''suspended'',
       v_created = Some (Stamp ''2024-02-01T14:22:00.000Z''), v_owner = ''client1'',
       v_hosting_type = None, v_www_root = None, v_ipAddresses = [''192.168.1.101'']\<rparr>,
      \<lparr>v_id = 45, v_name = ''afinformatica.spot4all.com'', v_status = ''suspended'',
       v_created = Some (Stamp ''2024-03-10T09:15:00.000Z''), v_owner = ''client3'',
       v_hosting_type = None, v_www_root = None, v_ipAddresses = [''192.168.1.103'']\<rparr>]"

text \<open>
  \<^verbatim>\<open>if (nameFilter) filteredDomains = testDomains.filter((domain) =>
        domain.name.toLowerCase().includes(nameFilter.toLowerCase()));\<close>
\<close>

definition test_filter :: "string option \<Rightarrow> view \<Rightarrow> bool" where
  "test_filter nameFilter v =
     (case nameFilter of
        None \<Rightarrow> True
      | Some f \<Rightarrow>
          if f \<noteq> [] then includes_str (toLowerCase (v_name v)) (toLowerCase f) else True)"

definition getTestDomains :: "string option \<Rightarrow> list_result" where
  "getTestDomains nameFilter =
     Listed (filter (test_filter nameFilter) testDomains)
       ''Retrieved domains from test data (Plesk unavailable)'' None"

text \<open>
  \<^verbatim>\<open>if (this.dbPool) { const connection = await this.dbPool.getConnection();
       await connection.execute('DELETE FROM domain_cache');
       connection.release(); console.log('Cleared domain cache'); }\<close>
\<close>

definition clear_cache :: "env \<Rightarrow> state \<Rightarrow> (string + unit) \<times> state" where
  "clear_cache env s =
     (if dbPool s then
        (case getConnection env s of
           (Inl e, s1) \<Rightarrow> (Inl e, s1)
         | (Inr u, s1) \<Rightarrow>
             (case execute env DeleteAll s1 of
                (Inl e, s2) \<Rightarrow> (Inl e, s2)
              | (Inr u, s2) \<Rightarrow> (Inr (), console ''Cleared domain cache'' s2)))
      else (Inr (), s))"

text \<open>
  \<^verbatim>\<open>const result = await this.fetchAndStoreDomains();
  if (result.success) { this.startStatusSync(); }
  return result;\<close>
\<close>

fun is_fetched :: "fetch_result \<Rightarrow> bool" where
  "is_fetched (Fetched n) = True"
| "is_fetched (FetchError err) = False"

definition refreshDomains_try :: "env \<Rightarrow> state \<Rightarrow> (string + fetch_result) \<times> state" where
  "refreshDomains_try env s =
     (case clear_cache env s of
        (Inl e, s1) \<Rightarrow> (Inl e, s1)
      | (Inr u, s1) \<Rightarrow>
          (case fetchAndStoreDomains env s1 of
             (Inl e, s2) \<Rightarrow> (Inl e, s2)
           | (Inr result, s2) \<Rightarrow>
               (Inr result, if is_fetched result then startStatusSync s2 else s2)))"

definition refreshDomains :: "env \<Rightarrow> state \<Rightarrow> (string + fetch_result) \<times> state" where
  "refreshDomains env s =
     (case refreshDomains_try env s of
        (Inl msg, s1) \<Rightarrow>
          (Inr (FetchError msg), console (''Error refreshing domains: '' @ msg) s1)
      | (Inr r, s1) \<Rightarrow> (Inr r, s1))"

subsection \<open>The two methods called \<open>listDomains\<close>\<close>

text \<open>
  The class body defines \<open>listDomains\<close> twice. The first definition (line 125,
  documented as "check cache first, then fetch from Plesk if needed") reads the
  cache, fills it when the query returned nothing, and falls back to the test data:
  \<^verbatim>\<open>const cachedDomains = await this.getDomainsFromCache(nameFilter);
  if (cachedDomains.length > 0) { ... return { success: true, data: cachedDomains,
       message: `Retrieved ${cachedDomains.length} domains from cache`, fromCache: true }; }
  const pleskResult = await this.fetchAndStoreDomains();
  if (!pleskResult.success) { return this.getTestDomains(nameFilter); }
  this.startStatusSync();
  const domains = await this.getDomainsFromCache(nameFilter);
  return { success: true, data: domains,
       message: `Retrieved ${domains.length} domains, status sync in progress`,
       fromCache: false };\<close>
\<close>

definition listDomains_first_try ::
  "env \<Rightarrow> string option \<Rightarrow> state \<Rightarrow> (string + list_result) \<times> state" where
  "listDomains_first_try env nameFilter s =
     (case getDomainsFromCache env nameFilter s of
        (Inl e, s1) \<Rightarrow> (Inl e, s1)
      | (Inr cachedDomains, s1) \<Rightarrow>
          if length cachedDomains > 0 then
            (Inr (Listed cachedDomains
                    (''Retrieved '' @ decimal (length cachedDomains) @ '' domains from cache'')
                    (Some True)),
             console (''Found '' @ decimal (length cachedDomains) @ '' domains in cache'') s1)
          else
            (case fetchAndStoreDomains env
                    (console ''Cache is empty, fetching domains from Plesk...'' s1) of
               (Inl e, s2) \<Rightarrow> (Inl e, s2)
             | (Inr (FetchError err), s2) \<Rightarrow> (Inr (getTestDomains nameFilter), s2)
             | (Inr (Fetched n), s2) \<Rightarrow>
                 (case getDomainsFromCache env nameFilter
                         (startStatusSync
                            (console ''Starting background status sync...'' s2)) of
                    (Inl e, s3) \<Rightarrow> (Inl e, s3)
                  | (Inr domains, s3) \<Rightarrow>
                      (Inr (Listed domains
                              (''Retrieved '' @ decimal (length domains)
                               @ '' domains, status sync in progress'')
                              (Some False)),
                       s3))))"

definition listDomains_first ::
  "env \<Rightarrow> string option \<Rightarrow> state \<Rightarrow> (string + list_result) \<times> state" where
  "listDomains_first env nameFilter s =
     (case listDomains_first_try env nameFilter s of
        (Inl msg, s1) \<Rightarrow>
          (Inr (getTestDomains nameFilter), console (''Error in listDomains: '' @ msg) s1)
      | (Inr r, s1) \<Rightarrow> (Inr r, s1))"

text \<open>
  The second definition (line 698, under "DOMAIN ENDPOINTS") forwards the request:
  \<^verbatim>\<open>let endpoint = '/domains';
  if (name) { endpoint += `?name=${encodeURIComponent(name)}`; }
  return await this.executeRequest('GET', endpoint);\<close>
\<close>

definition listDomains_second ::
  "env \<Rightarrow> string option \<Rightarrow> state \<Rightarrow> (string + list_result) \<times> state" where
  "listDomains_second env nm s =
     (case executeRequest env ''GET'' (Domains (if truthy nm then nm else None)) s of
        (Inl e, s1) \<Rightarrow> (Inl e, s1)
      | (Inr r, s1) \<Rightarrow> (Inr (Forwarded r), s1))"

text \<open>
  A class body is evaluated from top to bottom, and a method definition assigns the
  property of the prototype: of two definitions with one name the later one is the
  method. \<open>class_methods\<close> lists the definitions of \<open>listDomains\<close> in the order of
  the class body.
\<close>

datatype method_body = ListDomainsFirst | ListDomainsSecond

definition class_methods :: "(string \<times> method_body) list" where
  "class_methods =
     [(''listDomains'', ListDomainsFirst), (''listDomains'', ListDomainsSecond)]"

definition method_named :: "string \<Rightarrow> method_body option" where
  "method_named nm = map_of (rev class_methods) nm"

text \<open>\<open>pleskClient.listDomains(name)\<close>, as the route handler calls it.\<close>

definition listDomains ::
  "env \<Rightarrow> string option \<Rightarrow> state \<Rightarrow> (string + list_result) \<times> state" where
  "listDomains env nm s =
     (case method_named ''listDomains'' of
        None \<Rightarrow> (Inl ''pleskClient.listDomains is not a function'', s)
      | Some ListDomainsFirst \<Rightarrow> listDomains_first env nm s
      | Some ListDomainsSecond \<Rightarrow> listDomains_second env nm s)"

subsection \<open>The client over time\<close>

text \<open>
  What happens to a client: a caller invokes one of its methods, or a started status
  run settles. A history is a list of such events.
\<close>

datatype call =
    StartStatusSync
  | StatusSyncSettles
  | RefreshDomains
  | ListDomains "string option"
  | SyncDomainsInBackground

fun step :: "env \<Rightarrow> state \<Rightarrow> call \<Rightarrow> state" where
  "step env s StartStatusSync = startStatusSync s"
| "step env s StatusSyncSettles = statusSyncSettles env s"
| "step env s RefreshDomains = snd (refreshDomains env s)"
| "step env s (ListDomains nm) = snd (listDomains env nm s)"
| "step env s SyncDomainsInBackground = syncDomainsInBackground env s"

definition history :: "env \<Rightarrow> state \<Rightarrow> call list \<Rightarrow> state" where
  "history env s calls = foldl (step env) s calls"

text \<open>
  A client as the constructor leaves it: the pool created, the flag unset (falsy),
  no run started.
\<close>

definition constructed :: "row list \<Rightarrow> nat \<Rightarrow> state" where
  "constructed rows now =
     \<lparr>dbPool = True, statusSyncRunning = False, table = rows, clock = now,
      trace = [], running = 0\<rparr>"

subsection \<open>Notions for stating the properties\<close>

text \<open>
  The fields of the client that only \<open>startStatusSync\<close> and the settling of a run
  assign: the pool, the flag and the count of runs in flight.
\<close>

definition client_fields :: "state \<Rightarrow> bool \<times> bool \<times> nat" where
  "client_fields s = (dbPool s, statusSyncRunning s, running s)"

text \<open>
  The flag is set exactly while one run is in flight, and there is never a second one.
\<close>

definition guard_ok :: "state \<Rightarrow> bool" where
  "guard_ok s = (running s \<le> 1 \<and> (statusSyncRunning s \<longleftrightarrow> running s = 1))"

text \<open>
  A row holds a listing element: the row has the element's id and the values that
  \<open>fetchAndStoreDomains\<close> binds for it, written at time \<open>now\<close>.
\<close>

definition stored_as :: "nat \<Rightarrow> domain \<Rightarrow> row \<Rightarrow> bool" where
  "stored_as now d r =
     (row_id r = d_id d
      \<and> p_name (listing_params d) = Some (name r)
      \<and> created r = p_created (listing_params d)
      \<and> owner r = p_owner (listing_params d)
      \<and> hosting_type r = p_hosting_type (listing_params d)
      \<and> www_root r = p_www_root (listing_params d)
      \<and> ip_addresses r = p_ip_addresses (listing_params d)
      \<and> last_updated r = now)"


text \<open>
  The status that \<open>performStatusSync\<close> derives for the domain \<open>i\<close> from the answer
  to its status request (\<open>unknown\<close> when the request fails), and the relation between
  a row before a run and the row after it when the domains with ids in \<open>I\<close> have been
  processed: the status is the derived one if the row was processed and its update was
  not stopped by a storage fault, and the status it had otherwise; the other fields but
  \<open>last_updated\<close> are the ones it had.
\<close>

definition fetched_status :: "env \<Rightarrow> int \<Rightarrow> string" where
  "fetched_status env i =
     (case upstream env ''get'' (DomainStatus i) of
        Resolved d st \<Rightarrow> or_default (field d ''status'') ''unknown''
      | Rejected msg resp \<Rightarrow> ''unknown'')"

definition status_synced :: "env \<Rightarrow> int set \<Rightarrow> row \<Rightarrow> row \<Rightarrow> bool" where
  "status_synced env I old new =
     (row_id new = row_id old \<and> name new = name old \<and> created new = created old
      \<and> owner new = owner old \<and> hosting_type new = hosting_type old
      \<and> www_root new = www_root old \<and> ip_addresses new = ip_addresses old
      \<and> sync_error new = sync_error old
      \<and> status new =
          (if row_id old \<in> I
              \<and> db_fault env (UpdateStatus (fetched_status env (row_id old)) (row_id old)) = None
           then fetched_status env (row_id old) else status old))"

subsection \<open>Batches, pauses and the effects in a trace\<close>

text \<open>
  The words of the design, to compare the loops with: a list cut into batches of a
  fixed size, and batches of effects run one after the other with a pause between two
  consecutive batches and none after the last.
\<close>

function batches_of :: "nat \<Rightarrow> 'a list \<Rightarrow> 'a list list" where
  "batches_of n xs =
     (if n = 0 \<or> xs = [] then [] else take n xs # batches_of n (drop n xs))"
  by pat_completeness auto
termination
  by (relation "measure (\<lambda>(n, xs). length xs)") auto

declare batches_of.simps [simp del]

fun paced :: "nat \<Rightarrow> event list list \<Rightarrow> event list" where
  "paced delay [] = []"
| "paced delay [b] = b"
| "paced delay (b # b' # bs) = b @ Sleep delay # paced delay (b' # bs)"

text \<open>What the client did to the outside: the requests and the pauses of a trace.\<close>

fun is_effect :: "event \<Rightarrow> bool" where
  "is_effect (Request m ep) = True"
| "is_effect (Sleep d) = True"
| "is_effect (Log msg) = False"

fun is_sleep :: "event \<Rightarrow> bool" where
  "is_sleep (Sleep d) = True"
| "is_sleep (Request m ep) = False"
| "is_sleep (Log msg) = False"

definition effects :: "event list \<Rightarrow> event list" where
  "effects tr = filter is_effect tr"

definition sleeps :: "event list \<Rightarrow> nat" where
  "sleeps tr = length (filter is_sleep tr)"

text \<open>The status request for a domain id.\<close>

definition status_request :: "int \<Rightarrow> event" where
  "status_request i = Request ''get'' (DomainStatus i)"

subsection \<open>Stubs of the remote API and sample data\<close>

text \<open>
  A remote API that lists two domains, knows the status of the first and answers 404
  for the status of any other, over a store without faults; and a cached row of the
  first domain whose status has been fetched earlier.
\<close>

definition example_com :: domain where
  "example_com =
     \<lparr>d_id = 1, d_name = Some ''example.com'', ascii_name = None,
      d_created = Some ''2024-01-15T10:30:00.000Z'', created_at = None,
      d_owner = None, owner_login = Some ''admin'', d_hosting_type = None,
      d_www_root = None, d_ip_addresses = Some [''192.168.1.100'']\<rparr>"

definition test_org :: domain where
  "test_org =
     \<lparr>d_id = 2, d_name = Some ''test.org'', ascii_name = None,
      d_created = None, created_at = Some ''2024-02-01T14:22:00.000Z'',
      d_owner = Some ''client1'', owner_login = None, d_hosting_type = Some ''virtual'',
      d_www_root = Some ''/var/www/vhosts/test.org'', d_ip_addresses = None\<rparr>"

definition stub :: env where
  "stub =
     \<lparr>upstream = (\<lambda>m ep. case ep of
          Domains nm \<Rightarrow> Resolved (Items [example_com, test_org]) 200
        | DomainStatus i \<Rightarrow>
            if i = 1 then Resolved (Fields [(''status'', ''active'')]) 200
            else Rejected ''Request failed with status code 404''
                   (Some (Fields [(''message'', ''Domain not found'')], 404))),
      db_fault = (\<lambda>op. None),
      parse_ip_addresses = Inr\<rparr>"

definition cached_example :: row where
  "cached_example =
     \<lparr>row_id = 1, name = ''example.com'', status = ''active'',
      created = Some (Stamp ''2024-01-15T10:30:00.000Z''), owner = ''admin'',
      hosting_type = ''virtual'', www_root = [], ip_addresses = [''192.168.1.100''],
      last_updated = 3, sync_error = None\<rparr>"

text \<open>Six cached rows, the row cached first being the one updated last.\<close>

definition row_at :: "int \<Rightarrow> nat \<Rightarrow> row" where
  "row_at i t =
     \<lparr>row_id = i, name = ''example.com'', status = ''unknown'', created = None,
      owner = ''admin'', hosting_type = ''virtual'', www_root = [], ip_addresses = [],
      last_updated = t, sync_error = None\<rparr>"

definition six_rows :: "row list" where
  "six_rows = [row_at 1 60, row_at 2 50, row_at 3 40, row_at 4 30, row_at 5 20, row_at 6 10]"

text \<open>
  Five cached rows and a remote API whose status request for the domain 3 times out,
  over a store that rejects the status update of the domain 4; and a listing element
  for the domain 3.
\<close>

definition five_rows :: "row list" where
  "five_rows =
     [row_at 1 10, row_at 2 20, (row_at 3 30)\<lparr>status := ''active''\<rparr>,
      (row_at 4 40)\<lparr>status := ''suspended''\<rparr>, row_at 5 50]"

definition flaky :: env where
  "flaky =
     \<lparr>upstream = (\<lambda>m ep. case ep of
          Domains nm \<Rightarrow> Rejected ''connect ECONNREFUSED'' None
        | DomainStatus i \<Rightarrow>
            if i = 3 then Rejected ''timeout of 30000ms exceeded'' None
            else Resolved (Fields [(''status'', ''active'')]) 200),
      db_fault = (\<lambda>op. case op of
          UpdateStatus st i \<Rightarrow> if i = 4 then Some ''Lock wait timeout exceeded'' else None
        | _ \<Rightarrow> None),
      parse_ip_addresses = Inr\<rparr>"

definition third_domain :: domain where
  "third_domain =
     \<lparr>d_id = 3, d_name = Some ''demo.net'', ascii_name = None,
      d_created = None, created_at = None, d_owner = None, owner_login = None,
      d_hosting_type = None, d_www_root = None, d_ip_addresses = None\<rparr>"

section \<open>Properties of the cache and of the synchronisation\<close>

subsection \<open>Upserting twice\<close>

lemma upsert_row_ids:
  "row_id new = i \<Longrightarrow> (\<And>r. row_id (upd r) = row_id r) \<Longrightarrow>
   set (map row_id (upsert_row upd new i rows)) = insert i (set (map row_id rows))"
  by (induction rows) auto

lemma upsert_row_distinct:
  "row_id new = i \<Longrightarrow> (\<And>r. row_id (upd r) = row_id r) \<Longrightarrow>
   distinct (map row_id rows) \<Longrightarrow> distinct (map row_id (upsert_row upd new i rows))"
proof (induction rows)
  case Nil
  then show ?case by simp
next
  case (Cons r rs)
  have ids: "set (map row_id (upsert_row upd new i rs)) = insert i (set (map row_id rs))"
    using Cons.prems(1,2) by (rule upsert_row_ids)
  show ?case
  proof (cases "row_id r = i")
    case True
    with Cons.prems show ?thesis by simp
  next
    case False
    with Cons ids show ?thesis by auto
  qed
qed



lemma upsert_row_member:
  assumes "r \<in> set (upsert_row upd new i rows)" "row_id r = i"
    "distinct (map row_id rows)" "\<And>x. row_id (upd x) = row_id x"
  shows "(\<exists>x\<in>set rows. row_id x = i \<and> r = upd x) \<or> (i \<notin> row_id ` set rows \<and> r = new)"
  using assms
proof (induction rows)
  case Nil
  then show ?case by simp
next
  case (Cons a rows)
  show ?case
  proof (cases "row_id a = i")
    case True
    with Cons.prems have "r = upd a \<or> r \<in> set rows" by simp
    moreover from True Cons.prems(3) have "i \<notin> row_id ` set rows" by auto
    ultimately have "r = upd a" using Cons.prems(2) by auto
    with True show ?thesis by simp
  next
    case False
    with Cons.prems have "r \<in> set (upsert_row upd new i rows)" by auto
    from Cons.IH [OF this Cons.prems(2) _ Cons.prems(4)] Cons.prems(3) False
    show ?thesis by auto
  qed
qed

lemma upsert_row_frame:
  "r \<in> set (upsert_row upd new i rows) \<Longrightarrow> row_id r \<noteq> i \<Longrightarrow> row_id new = i \<Longrightarrow>
   (\<And>x. row_id (upd x) = row_id x) \<Longrightarrow> r \<in> set rows"
  by (induction rows) (auto split: if_splits)

lemma insert_listing_ids:
  "row_id ` set (insert_listing now p n rows) = insert (p_id p) (row_id ` set rows)"
  using upsert_row_ids [of _ "p_id p" _ rows]
  by (simp add: insert_listing_def)

lemma insert_listing_distinct:
  "distinct (map row_id rows) \<Longrightarrow> distinct (map row_id (insert_listing now p n rows))"
  unfolding insert_listing_def by (rule upsert_row_distinct) simp_all

lemma insert_listing_frame:
  "r \<in> set (insert_listing now p n rows) \<Longrightarrow> row_id r \<noteq> p_id p \<Longrightarrow> r \<in> set rows"
  unfolding insert_listing_def by (erule upsert_row_frame) simp_all

lemma insert_listing_member:
  assumes "r \<in> set (insert_listing now p n rows)" "row_id r = p_id p"
    "distinct (map row_id rows)"
  shows "name r = n \<and> created r = p_created p \<and> owner r = p_owner p
         \<and> hosting_type r = p_hosting_type p \<and> www_root r = p_www_root p
         \<and> ip_addresses r = p_ip_addresses p \<and> last_updated r = now
         \<and> ((p_id p \<notin> row_id ` set rows \<and> status r = ''unknown'' \<and> sync_error r = None)
            \<or> (\<exists>old\<in>set rows. row_id old = p_id p \<and> status r = status old
                   \<and> sync_error r = sync_error old))"
  using upsert_row_member [OF assms(1) [unfolded insert_listing_def] assms(2) assms(3)]
  by auto






subsection \<open>The narrow status update\<close>

lemma update_status_narrow:
  "list_all2 (\<lambda>old new. new\<lparr>status := status old, last_updated := last_updated old\<rparr> = old
                \<and> (row_id old \<noteq> i \<longrightarrow> new = old))
     rows (update_status now st i rows)"
  by (induction rows) (simp_all add: update_status_def)

lemma narrow_refl:
  "list_all2 (\<lambda>old new. new\<lparr>status := status old, last_updated := last_updated old\<rparr> = old
                \<and> (row_id old \<noteq> i \<longrightarrow> new = old))
     rows rows"
  by (induction rows) simp_all

lemma execute_update_table:
  "table (snd (execute env (UpdateStatus st i) s)) = table s \<or>
   table (snd (execute env (UpdateStatus st i) s)) = update_status (clock s) st i (table s)"
  by (simp add: execute_def split: option.splits)

lemma console_table [simp]: "table (console msg s) = table s"
  by (simp add: console_def emit_def)

lemma console_clock [simp]: "clock (console msg s) = clock s"
  by (simp add: console_def emit_def)

lemma getConnection_state [simp]: "snd (getConnection env s) = s"
  by (simp add: getConnection_def split: option.splits)

lemma executeRequest_table [simp]: "table (snd (executeRequest env m ep s)) = table s"
  by (simp add: executeRequest_def Let_def emit_def split: http_outcome.splits option.splits prod.splits)

lemma executeRequest_clock [simp]: "clock (snd (executeRequest env m ep s)) = clock s"
  by (simp add: executeRequest_def Let_def emit_def split: http_outcome.splits option.splits prod.splits)

lemma updateDomainStatusInCache_table:
  "table (snd (updateDomainStatusInCache env i st s)) = table s \<or>
   table (snd (updateDomainStatusInCache env i st s)) = update_status (clock s) st i (table s)"
proof -
  obtain r s1 where g: "getConnection env s = (r, s1)" by (cases "getConnection env s")
  then have s1: "s1 = s" using getConnection_state [of env s] by simp
  obtain r2 s2 where e: "execute env (UpdateStatus st i) s = (r2, s2)"
    by (cases "execute env (UpdateStatus st i) s")
  from execute_update_table [of env st i s] e
  have t: "table s2 = table s \<or> table s2 = update_status (clock s) st i (table s)" by simp
  show ?thesis
    using g s1 e t
    by (auto simp: updateDomainStatusInCache_def updateDomainStatusInCache_try_def
             split: sum.splits)
qed

lemma statusSyncItem_table:
  "table (statusSyncItem env d s) = table s \<or>
   (\<exists>st. table (statusSyncItem env d s) = update_status (clock s) st (fst d) (table s))"
proof -
  obtain r s1 where q: "executeRequest env ''GET'' (DomainStatus (fst d)) s = (r, s1)"
    by (cases "executeRequest env ''GET'' (DomainStatus (fst d)) s")
  then have s1: "table s1 = table s" "clock s1 = clock s"
    using executeRequest_table [of env "''GET''" "DomainStatus (fst d)" s]
      executeRequest_clock [of env "''GET''" "DomainStatus (fst d)" s] by simp_all
  show ?thesis
  proof (cases r)
    case (Inl e)
    with q s1 show ?thesis by (simp add: statusSyncItem_def statusSyncItem_try_def)
  next
    case (Inr resp)
    obtain r2 s2 where e: "execute env (UpdateStatus (response_status resp) (fst d)) s1 = (r2, s2)"
      by (cases "execute env (UpdateStatus (response_status resp) (fst d)) s1")
    from execute_update_table [of env "response_status resp" "fst d" s1] e s1
    have "table s2 = table s \<or>
          table s2 = update_status (clock s) (response_status resp) (fst d) (table s)" by simp
    with q Inr e show ?thesis
      by (auto simp: statusSyncItem_def statusSyncItem_try_def Let_def split: sum.splits)
  qed
qed

text \<open>
  C8. The narrow status update, as the method \<open>updateDomainStatusInCache\<close> and as
  the update inside a status run, changes at most the \<open>status\<close> and the
  \<open>last_updated\<close> of a row: every row of the table, with these two fields put back,
  is the row it was, in the same place, and a row with another id is the row it was.
  This holds whether the update succeeds or a storage fault stops it.
\<close>

theorem status_update_narrow:
  "list_all2 (\<lambda>old new. new\<lparr>status := status old, last_updated := last_updated old\<rparr> = old
                \<and> (row_id old \<noteq> domainId \<longrightarrow> new = old))
     (table s) (table (snd (updateDomainStatusInCache env domainId st s)))
   \<and> list_all2 (\<lambda>old new. new\<lparr>status := status old, last_updated := last_updated old\<rparr> = old
                \<and> (row_id old \<noteq> domainId \<longrightarrow> new = old))
     (table s) (table (statusSyncItem env (domainId, nm) s))"
proof
  from updateDomainStatusInCache_table [of env domainId st s]
  show "list_all2 (\<lambda>old new. new\<lparr>status := status old, last_updated := last_updated old\<rparr> = old
                \<and> (row_id old \<noteq> domainId \<longrightarrow> new = old))
     (table s) (table (snd (updateDomainStatusInCache env domainId st s)))"
    using narrow_refl [of domainId "table s"] update_status_narrow [of domainId "table s"]
    by auto
next
  from statusSyncItem_table [of env "(domainId, nm)" s]
  show "list_all2 (\<lambda>old new. new\<lparr>status := status old, last_updated := last_updated old\<rparr> = old
                \<and> (row_id old \<noteq> domainId \<longrightarrow> new = old))
     (table s) (table (statusSyncItem env (domainId, nm) s))"
    using narrow_refl [of domainId "table s"] update_status_narrow [of domainId "table s"]
    by auto
qed

theorem status_update_narrow_witness:
  "table (snd (updateDomainStatusInCache
      stub 1 ''active''
      (constructed
        [\<lparr>row_id = 1, name = ''example.com'', status = ''unknown'', created = None,
          owner = ''admin'', hosting_type = ''virtual'', www_root = [],
          ip_addresses = [''192.168.1.100''], last_updated = 3, sync_error = None\<rparr>,
         \<lparr>row_id = 2, name = ''test.org'', status = ''suspended'', created = None,
          owner = ''client1'', hosting_type = ''virtual'', www_root = [],
          ip_addresses = [], last_updated = 4, sync_error = None\<rparr>] 9)))
   = [\<lparr>row_id = 1, name = ''example.com'', status = ''active'', created = None,
          owner = ''admin'', hosting_type = ''virtual'', www_root = [],
          ip_addresses = [''192.168.1.100''], last_updated = 9, sync_error = None\<rparr>,
         \<lparr>row_id = 2, name = ''test.org'', status = ''suspended'', created = None,
          owner = ''client1'', hosting_type = ''virtual'', www_root = [],
          ip_addresses = [], last_updated = 4, sync_error = None\<rparr>]"
  using status_update_narrow [of 1
      "constructed
        [\<lparr>row_id = 1, name = ''example.com'', status = ''unknown'', created = None,
          owner = ''admin'', hosting_type = ''virtual'', www_root = [],
          ip_addresses = [''192.168.1.100''], last_updated = 3, sync_error = None\<rparr>,
         \<lparr>row_id = 2, name = ''test.org'', status = ''suspended'', created = None,
          owner = ''client1'', hosting_type = ''virtual'', www_root = [],
          ip_addresses = [], last_updated = 4, sync_error = None\<rparr>] 9"
      stub
      "''active''"]
  by (simp add: updateDomainStatusInCache_def updateDomainStatusInCache_try_def
        getConnection_def execute_def update_status_def constructed_def stub_def)

subsection \<open>What the methods leave alone\<close>

lemma cf_emit [simp]: "client_fields (emit e s) = client_fields s"
  by (simp add: client_fields_def emit_def)

lemma cf_console [simp]: "client_fields (console m s) = client_fields s"
  by (simp add: console_def)

lemma cf_sleep [simp]: "client_fields (sleep d s) = client_fields s"
  by (simp add: sleep_def client_fields_def emit_def)

lemma cf_getConnection: "getConnection env s = (r, s') \<Longrightarrow> client_fields s' = client_fields s"
  by (auto simp: getConnection_def split: option.splits if_splits)

lemma cf_execute: "execute env op s = (r, s') \<Longrightarrow> client_fields s' = client_fields s"
  by (auto simp: execute_def client_fields_def split: option.splits sum.splits)

lemma cf_executeRequest:
  "executeRequest env m ep s = (r, s') \<Longrightarrow> client_fields s' = client_fields s"
  by (auto simp: executeRequest_def Let_def split: http_outcome.splits option.splits prod.splits)

lemma cf_query_all: "query_all env pat s = (r, s') \<Longrightarrow> client_fields s' = client_fields s"
  by (auto simp: query_all_def split: option.splits)

lemma cf_query_id_name: "query_id_name env s = (r, s') \<Longrightarrow> client_fields s' = client_fields s"
  by (auto simp: query_id_name_def split: option.splits)

lemma cf_store_listing:
  "store_listing env ds s = (r, s') \<Longrightarrow> client_fields s' = client_fields s"
proof (induction ds arbitrary: s)
  case Nil
  then show ?case by simp
next
  case (Cons d ds)
  then show ?case
    by (auto split: sum.splits prod.splits dest!: cf_execute)
qed

lemma cf_fetchAndStoreDomains:
  "fetchAndStoreDomains env s = (r, s') \<Longrightarrow> client_fields s' = client_fields s"
  by (auto simp: fetchAndStoreDomains_def fetchAndStoreDomains_try_def Let_def
           split: sum.splits prod.splits if_splits api_result.splits
           dest!: cf_getConnection cf_store_listing cf_executeRequest)

lemma cf_statusSyncItem [simp]: "client_fields (statusSyncItem env d s) = client_fields s"
  by (auto simp: statusSyncItem_def statusSyncItem_try_def Let_def
           split: sum.splits prod.splits
           dest!: cf_execute cf_executeRequest)

lemma cf_statusSyncBatch [simp]: "client_fields (statusSyncBatch env b s) = client_fields s"
  unfolding statusSyncBatch_def by (induction b arbitrary: s) simp_all

lemma cf_statusSyncLoop [simp]: "client_fields (statusSyncLoop env ds i s) = client_fields s"
proof (induction env ds i s rule: statusSyncLoop.induct)
  case (1 env domains i s)
  show ?case
  proof (cases "i < length domains")
    case True
    from "1" [OF True] True show ?thesis
      by (subst statusSyncLoop.simps) (simp add: Let_def)
  next
    case False
    then show ?thesis by (subst statusSyncLoop.simps) simp
  qed
qed

lemma cf_performStatusSync:
  "performStatusSync env s = (r, s') \<Longrightarrow> client_fields s' = client_fields s"
  by (auto simp: performStatusSync_def performStatusSync_try_def Let_def
           split: sum.splits prod.splits if_splits
           dest!: cf_getConnection cf_query_id_name)

lemma cf_syncDomain [simp]: "client_fields (syncDomain env d s) = client_fields s"
  by (auto simp: syncDomain_def syncDomain_try_def fetch_status_def
           split: sum.splits prod.splits
           dest!: cf_execute cf_executeRequest)

lemma cf_syncDomainBatch [simp]: "client_fields (syncDomainBatch env b s) = client_fields s"
  unfolding syncDomainBatch_def by (induction b arbitrary: s) simp_all

lemma cf_backgroundSyncLoop [simp]:
  "client_fields (backgroundSyncLoop env ds i s) = client_fields s"
proof (induction env ds i s rule: backgroundSyncLoop.induct)
  case (1 env domains i s)
  show ?case
  proof (cases "i < length domains")
    case True
    from "1" [OF True] True show ?thesis
      by (subst backgroundSyncLoop.simps) (simp add: Let_def)
  next
    case False
    then show ?thesis by (subst backgroundSyncLoop.simps) simp
  qed
qed

lemma cf_performBackgroundSync:
  "performBackgroundSync env s = (r, s') \<Longrightarrow> client_fields s' = client_fields s"
  by (auto simp: performBackgroundSync_def performBackgroundSync_try_def Let_def
           split: sum.splits prod.splits if_splits api_result.splits
           dest!: cf_getConnection cf_executeRequest)

lemma cf_syncDomainsInBackground [simp]:
  "client_fields (syncDomainsInBackground env s) = client_fields s"
  by (auto simp: syncDomainsInBackground_def split: sum.splits prod.splits
           dest!: cf_performBackgroundSync)

lemma cf_clear_cache:
  "clear_cache env s = (r, s') \<Longrightarrow> client_fields s' = client_fields s"
  by (auto simp: clear_cache_def split: sum.splits prod.splits if_splits
           dest!: cf_getConnection cf_execute)

lemma cf_listDomains:
  "listDomains env nm s = (r, s') \<Longrightarrow> client_fields s' = client_fields s"
  by (auto simp: listDomains_def method_named_def class_methods_def listDomains_second_def
           split: sum.splits prod.splits dest!: cf_executeRequest)


subsection \<open>The guard of the status sync\<close>

lemma guard_ok_fields: "client_fields s' = client_fields s \<Longrightarrow> guard_ok s' = guard_ok s"
  by (simp add: client_fields_def guard_ok_def)

lemma guard_ok_constructed: "guard_ok (constructed rows now)"
  by (simp add: guard_ok_def constructed_def)

lemma guard_ok_startStatusSync: "guard_ok s \<Longrightarrow> guard_ok (startStatusSync s)"
proof (cases "statusSyncRunning s")
  case True
  assume g: "guard_ok s"
  have "guard_ok (console ''Status sync already running'' s) = guard_ok s"
    by (rule guard_ok_fields) (rule cf_console)
  with True g show ?thesis
    by (simp add: startStatusSync_def)
next
  case False
  assume "guard_ok s"
  with False show ?thesis by (simp add: startStatusSync_def guard_ok_def)
qed

lemma settle_resets:
  "\<not> statusSyncRunning (settle (r, s1)) \<and> running (settle (r, s1)) = running s1 - 1"
proof (cases r)
  case (Inl msg)
  have "running (console (''Background status sync failed: '' @ msg) s1) = running s1"
    using cf_console [of "''Background status sync failed: '' @ msg" s1]
    by (simp add: client_fields_def)
  with Inl show ?thesis by (simp add: settle_def Let_def)
next
  case (Inr u)
  then show ?thesis by (simp add: settle_def)
qed

lemma statusSyncSettles_resets:
  assumes "guard_ok s"
  shows "\<not> statusSyncRunning (statusSyncSettles env s) \<and> running (statusSyncSettles env s) = 0"
proof (cases "running s = 0")
  case True
  with assms show ?thesis by (simp add: statusSyncSettles_def guard_ok_def)
next
  case False
  obtain r s1 where p: "performStatusSync env s = (r, s1)"
    by (cases "performStatusSync env s")
  from cf_performStatusSync [OF p] have "running s1 = running s"
    by (simp add: client_fields_def)
  with assms False have "running s1 - 1 = 0" by (simp add: guard_ok_def)
  with settle_resets [of r s1] p False show ?thesis by (simp add: statusSyncSettles_def)
qed

lemma guard_ok_statusSyncSettles: "guard_ok s \<Longrightarrow> guard_ok (statusSyncSettles env s)"
  using statusSyncSettles_resets [of s env] by (simp add: guard_ok_def)

lemma guard_ok_refreshDomains:
  assumes g: "guard_ok s"
  shows "guard_ok (snd (refreshDomains env s))"
proof -
  obtain r1 s1 where c: "clear_cache env s = (r1, s1)" by (cases "clear_cache env s")
  from guard_ok_fields [OF cf_clear_cache [OF c]] g have g1: "guard_ok s1" by simp
  obtain r2 s2 where f: "fetchAndStoreDomains env s1 = (r2, s2)"
    by (cases "fetchAndStoreDomains env s1")
  from guard_ok_fields [OF cf_fetchAndStoreDomains [OF f]] g1 have g2: "guard_ok s2" by simp
  have g3: "guard_ok (startStatusSync s2)" using g2 by (rule guard_ok_startStatusSync)
  have gc: "\<And>m t. guard_ok t \<Longrightarrow> guard_ok (console m t)"
    by (simp add: guard_ok_fields [OF cf_console])
  show ?thesis
  proof (cases r1)
    case (Inl e)
    with c g1 gc show ?thesis by (simp add: refreshDomains_def refreshDomains_try_def)
  next
    case (Inr u)
    show ?thesis
    proof (cases r2)
      case (Inl e)
      with c f Inr g2 gc show ?thesis
        by (simp add: refreshDomains_def refreshDomains_try_def)
    next
      case (Inr res)
      with c f \<open>r1 = Inr u\<close> g2 g3 show ?thesis
        by (simp add: refreshDomains_def refreshDomains_try_def)
    qed
  qed
qed

lemma guard_ok_step: "guard_ok s \<Longrightarrow> guard_ok (step env s c)"
proof (cases c)
  case StartStatusSync
  assume "guard_ok s"
  with StartStatusSync show ?thesis by (simp add: guard_ok_startStatusSync)
next
  case StatusSyncSettles
  assume "guard_ok s"
  with StatusSyncSettles show ?thesis by (simp add: guard_ok_statusSyncSettles)
next
  case RefreshDomains
  assume "guard_ok s"
  with RefreshDomains show ?thesis by (simp add: guard_ok_refreshDomains)
next
  case (ListDomains nm)
  assume g: "guard_ok s"
  obtain r s' where l: "listDomains env nm s = (r, s')" by (cases "listDomains env nm s")
  from guard_ok_fields [OF cf_listDomains [OF l]] g have "guard_ok s'" by simp
  with ListDomains l show ?thesis by simp
next
  case SyncDomainsInBackground
  assume "guard_ok s"
  with SyncDomainsInBackground show ?thesis
    by (simp add: guard_ok_fields [of "syncDomainsInBackground env s" s])
qed

lemma guard_ok_history: "guard_ok s \<Longrightarrow> guard_ok (history env s calls)"
  unfolding history_def by (induction calls arbitrary: s) (simp_all add: guard_ok_step)

text \<open>
  C4. In every history of a client, whatever its callers invoke and whenever a run
  settles, at most one run of the status sync is in flight, before and after a call
  of \<open>startStatusSync\<close>. A call made while a run is in flight only writes
  "Status sync already running" to the console: no field changes and no run starts.
\<close>

theorem one_status_run_at_a_time:
  "(let s = history env (constructed rows now) calls in
      running s \<le> 1
      \<and> running (startStatusSync s) \<le> 1
      \<and> (running s = 1 \<longrightarrow>
           startStatusSync s = console ''Status sync already running'' s
           \<and> running (startStatusSync s) = 1))"
proof -
  let ?s = "history env (constructed rows now) calls"
  have g: "guard_ok ?s" by (rule guard_ok_history) (rule guard_ok_constructed)
  from g have g': "guard_ok (startStatusSync ?s)" by (rule guard_ok_startStatusSync)
  have "running ?s = 1 \<Longrightarrow> startStatusSync ?s = console ''Status sync already running'' ?s"
    using g by (simp add: guard_ok_def startStatusSync_def)
  moreover have "running ?s = 1 \<Longrightarrow> running (startStatusSync ?s) = 1"
    using g cf_console [of "''Status sync already running''" ?s]
    by (simp add: guard_ok_def startStatusSync_def client_fields_def)
  ultimately show ?thesis using g g' by (simp add: Let_def guard_ok_def)
qed

theorem one_status_run_at_a_time_witness:
  "running (history flaky
              (constructed [] 0) [StartStatusSync]) = 1
   \<and> startStatusSync
        (history flaky
           (constructed [] 0) [StartStatusSync])
       = console ''Status sync already running''
           (history flaky
              (constructed [] 0) [StartStatusSync])
   \<and> running
        (history flaky
           (constructed [] 0) [StartStatusSync, StartStatusSync]) = 1"
  using one_status_run_at_a_time
      [of flaky
          "[]" 0 "[StartStatusSync]"]
  by (simp add: Let_def history_def startStatusSync_def constructed_def)

text \<open>
  C10. In every history of a client the flag \<open>statusSyncRunning\<close> is set exactly
  when a run is in flight. \<open>startStatusSync\<close> sets it as it starts a run. When the
  promise of a run settles the flag is reset, whether the run was rejected (\<open>Inl\<close>)
  or fulfilled (\<open>Inr\<close>); after the settling no run is in flight, and the next call of
  \<open>startStatusSync\<close> starts a new one.
\<close>

theorem guard_follows_run:
  "(let s = history env (constructed rows now) calls in
      (statusSyncRunning s \<longleftrightarrow> running s = 1)
      \<and> (\<not> statusSyncRunning s \<longrightarrow>
            statusSyncRunning (startStatusSync s) \<and> running (startStatusSync s) = 1)
      \<and> \<not> statusSyncRunning (settle (Inl msg, s1))
      \<and> \<not> statusSyncRunning (settle (Inr (), s1))
      \<and> \<not> statusSyncRunning (statusSyncSettles env s)
      \<and> running (statusSyncSettles env s) = 0
      \<and> statusSyncRunning (startStatusSync (statusSyncSettles env s))
      \<and> running (startStatusSync (statusSyncSettles env s)) = 1)"
proof -
  let ?s = "history env (constructed rows now) calls"
  have g: "guard_ok ?s" by (rule guard_ok_history) (rule guard_ok_constructed)
  have a: "statusSyncRunning ?s \<longleftrightarrow> running ?s = 1" using g by (simp add: guard_ok_def)
  have b: "\<not> statusSyncRunning ?s \<Longrightarrow>
      statusSyncRunning (startStatusSync ?s) \<and> running (startStatusSync ?s) = 1"
    using g by (simp add: guard_ok_def startStatusSync_def)
  have c: "\<not> statusSyncRunning (statusSyncSettles env ?s)"
      "running (statusSyncSettles env ?s) = 0"
    using statusSyncSettles_resets [OF g, of env] by simp_all
  have d: "statusSyncRunning (startStatusSync (statusSyncSettles env ?s))"
      "running (startStatusSync (statusSyncSettles env ?s)) = 1"
    using c by (simp_all add: startStatusSync_def)
  from a b c d settle_resets [of "Inl msg" s1] settle_resets [of "Inr ()" s1]
  show ?thesis by (simp add: Let_def)
qed

theorem guard_follows_run_witness:
  "\<not> statusSyncRunning (constructed [] 0)
   \<and> statusSyncRunning (startStatusSync (constructed [] 0))
   \<and> running (startStatusSync (constructed [] 0)) = 1
   \<and> \<not> statusSyncRunning
         (statusSyncSettles
            flaky
            (startStatusSync (constructed [] 0)))
   \<and> running
         (statusSyncSettles
            flaky
            (startStatusSync (constructed [] 0))) = 0"
  using guard_follows_run
      [of flaky
          "[]" 0 "[]" "''boom''" "constructed [] 0"]
    guard_follows_run
      [of flaky
          "[]" 0 "[StartStatusSync]" "''boom''" "constructed [] 0"]
  by (simp add: Let_def history_def constructed_def startStatusSync_def)

subsection \<open>Storing the listing\<close>

lemma execute_InsertListing:
  "execute env (InsertListing p) s = (Inr u, s') \<Longrightarrow>
   \<exists>n. p_name p = Some n \<and> db_fault env (InsertListing p) = None
       \<and> s' = s\<lparr>table := insert_listing (clock s) p n (table s)\<rparr>"
  by (auto simp: execute_def split: option.splits sum.splits)

lemma store_listing_Cons:
  assumes "store_listing env (d # ds) s = (Inr u, s')"
  obtains n s1 where "p_name (listing_params d) = Some n"
    "db_fault env (InsertListing (listing_params d)) = None"
    "s1 = s\<lparr>table := insert_listing (clock s) (listing_params d) n (table s)\<rparr>"
    "store_listing env ds s1 = (Inr u, s')"
proof -
  obtain r1 s1 where e: "execute env (InsertListing (listing_params d)) s = (r1, s1)"
    by (cases "execute env (InsertListing (listing_params d)) s")
  with assms obtain u1 where r1: "r1 = Inr u1" and rest: "store_listing env ds s1 = (Inr u, s')"
    by (cases r1) auto
  from execute_InsertListing [OF e [unfolded r1]] rest that show thesis by blast
qed

lemma store_listing_rows:
  assumes "store_listing env ds s = (Inr u, s')" "distinct (map row_id (table s))"
  shows "distinct (map row_id (table s')) \<and> clock s' = clock s
    \<and> row_id ` set (table s') = row_id ` set (table s) \<union> d_id ` set ds
    \<and> (\<forall>r\<in>set (table s'). row_id r \<notin> d_id ` set ds \<longrightarrow> r \<in> set (table s))
    \<and> (\<forall>r\<in>set (table s'). row_id r \<in> d_id ` set ds \<longrightarrow>
          (\<exists>d\<in>set ds. stored_as (clock s) d r))
    \<and> (\<forall>r\<in>set (table s').
          (row_id r \<notin> row_id ` set (table s) \<and> status r = ''unknown'')
          \<or> (\<exists>old\<in>set (table s). row_id old = row_id r \<and> status old = status r))"
  using assms
proof (induction ds arbitrary: s)
  case Nil
  then show ?case by auto
next
  case (Cons d ds)
  let ?p = "listing_params d"
  from Cons.prems(1) obtain n s1 where
    n: "p_name ?p = Some n" and
    s1: "s1 = s\<lparr>table := insert_listing (clock s) ?p n (table s)\<rparr>" and
    rest: "store_listing env ds s1 = (Inr u, s')"
    by (rule store_listing_Cons)
  have pid: "p_id ?p = d_id d" by (simp add: listing_params_def)
  have t1: "table s1 = insert_listing (clock s) ?p n (table s)" and c1: "clock s1 = clock s"
    using s1 by simp_all
  have d1: "distinct (map row_id (table s1))"
    unfolding t1 using Cons.prems(2) by (rule insert_listing_distinct)
  have ids1: "row_id ` set (table s1) = insert (d_id d) (row_id ` set (table s))"
    unfolding t1 by (simp add: insert_listing_ids pid)
  note IH = Cons.IH [OF rest d1]
  from IH have A: "distinct (map row_id (table s'))" and B: "clock s' = clock s1"
    and C: "row_id ` set (table s') = row_id ` set (table s1) \<union> d_id ` set ds"
    and D: "\<And>r. r \<in> set (table s') \<Longrightarrow> row_id r \<notin> d_id ` set ds \<Longrightarrow> r \<in> set (table s1)"
    and E: "\<And>r. r \<in> set (table s') \<Longrightarrow> row_id r \<in> d_id ` set ds \<Longrightarrow>
              \<exists>d\<in>set ds. stored_as (clock s1) d r"
    and F: "\<And>r. r \<in> set (table s') \<Longrightarrow>
              (row_id r \<notin> row_id ` set (table s1) \<and> status r = ''unknown'')
              \<or> (\<exists>old\<in>set (table s1). row_id old = row_id r \<and> status old = status r)"
    by blast+
  have frame1: "\<And>r. r \<in> set (table s1) \<Longrightarrow> row_id r \<noteq> d_id d \<Longrightarrow> r \<in> set (table s)"
    unfolding t1 using insert_listing_frame [of _ "clock s" ?p n "table s"] pid by simp
  have member1: "\<And>r. r \<in> set (table s1) \<Longrightarrow> row_id r = d_id d \<Longrightarrow>
      stored_as (clock s) d r
      \<and> ((d_id d \<notin> row_id ` set (table s) \<and> status r = ''unknown'')
         \<or> (\<exists>old\<in>set (table s). row_id old = d_id d \<and> status r = status old))"
  proof -
    fix r assume r: "r \<in> set (table s1)" "row_id r = d_id d"
    from r have "r \<in> set (insert_listing (clock s) ?p n (table s))" "row_id r = p_id ?p"
      by (simp_all add: t1 pid)
    from insert_listing_member [OF this Cons.prems(2)] n r(2) pid
    show "stored_as (clock s) d r
      \<and> ((d_id d \<notin> row_id ` set (table s) \<and> status r = ''unknown'')
         \<or> (\<exists>old\<in>set (table s). row_id old = d_id d \<and> status r = status old))"
      unfolding stored_as_def by auto
  qed
  have G3: "row_id ` set (table s') = row_id ` set (table s) \<union> d_id ` set (d # ds)"
    using C ids1 by auto
  have G4: "\<forall>r\<in>set (table s'). row_id r \<notin> d_id ` set (d # ds) \<longrightarrow> r \<in> set (table s)"
  proof (intro ballI impI)
    fix r assume r: "r \<in> set (table s')" "row_id r \<notin> d_id ` set (d # ds)"
    then have "r \<in> set (table s1)" using D by auto
    with r(2) show "r \<in> set (table s)" using frame1 by auto
  qed
  have G5: "\<forall>r\<in>set (table s'). row_id r \<in> d_id ` set (d # ds) \<longrightarrow>
          (\<exists>d'\<in>set (d # ds). stored_as (clock s) d' r)"
  proof (intro ballI impI)
    fix r assume r: "r \<in> set (table s')" "row_id r \<in> d_id ` set (d # ds)"
    show "\<exists>d'\<in>set (d # ds). stored_as (clock s) d' r"
    proof (cases "row_id r \<in> d_id ` set ds")
      case True
      from E [OF r(1) True] c1 show ?thesis by auto
    next
      case False
      with r(2) have i: "row_id r = d_id d" by auto
      from D [OF r(1) False] have "r \<in> set (table s1)" .
      from member1 [OF this i] show ?thesis by auto
    qed
  qed
  have G6: "\<forall>r\<in>set (table s').
          (row_id r \<notin> row_id ` set (table s) \<and> status r = ''unknown'')
          \<or> (\<exists>old\<in>set (table s). row_id old = row_id r \<and> status old = status r)"
  proof
    fix r assume r: "r \<in> set (table s')"
    from F [OF r] show "(row_id r \<notin> row_id ` set (table s) \<and> status r = ''unknown'')
          \<or> (\<exists>old\<in>set (table s). row_id old = row_id r \<and> status old = status r)"
    proof
      assume "row_id r \<notin> row_id ` set (table s1) \<and> status r = ''unknown''"
      with ids1 show ?thesis by auto
    next
      assume "\<exists>old\<in>set (table s1). row_id old = row_id r \<and> status old = status r"
      then obtain o1 where o1: "o1 \<in> set (table s1)" "row_id o1 = row_id r" "status o1 = status r"
        by blast
      show ?thesis
      proof (cases "row_id o1 = d_id d")
        case True
        from member1 [OF o1(1) True] o1 True show ?thesis by auto
      next
        case False
        from frame1 [OF o1(1) False] o1 show ?thesis by auto
      qed
    qed
  qed
  from A B c1 G3 G4 G5 G6 show ?case by simp
qed


lemma toLowerCase_GET [simp]: "toLowerCase ''GET'' = ''get''"
  by code_simp

lemma executeRequest_result:
  assumes "executeRequest env m ep s = (r, s1)"
  shows "table s1 = table s \<and> clock s1 = clock s
    \<and> (case upstream env (toLowerCase m) ep of
          Resolved d st \<Rightarrow> r = Inr (Success d st)
        | Rejected msg resp \<Rightarrow> (\<exists>e det st. r = Inr (Failure e det st)))"
  using assms
  by (auto simp: executeRequest_def Let_def console_def emit_def
           split: http_outcome.splits option.splits prod.splits)

lemma fetch_never_raises: "\<exists>r. fst (fetchAndStoreDomains env s) = Inr r"
  by (simp add: fetchAndStoreDomains_def split: prod.splits sum.splits)

lemma fetch_success:
  assumes f: "fetchAndStoreDomains env s = (Inr (Fetched n), s')"
    and pool: "dbPool s" and dist: "distinct (map row_id (table s))"
  shows "\<exists>payload st u s3. upstream env ''get'' (Domains None) = Resolved payload st
    \<and> n = length (listing_of payload)
    \<and> store_listing env (listing_of payload) s3 = (Inr u, s')
    \<and> table s3 = table s \<and> clock s3 = clock s"
proof -
  obtain r1 s1 where q: "executeRequest env ''GET'' (Domains None) s = (r1, s1)"
    by (cases "executeRequest env ''GET'' (Domains None) s")
  from executeRequest_result [OF q] have s1: "table s1 = table s" "clock s1 = clock s"
    and r1: "case upstream env ''get'' (Domains None) of
          Resolved d st \<Rightarrow> r1 = Inr (Success d st)
        | Rejected msg resp \<Rightarrow> (\<exists>e det st. r1 = Inr (Failure e det st))"
    by simp_all
  from cf_executeRequest [OF q] pool have p1: "dbPool s1" by (simp add: client_fields_def)
  show ?thesis
  proof (cases "upstream env ''get'' (Domains None)")
    case (Rejected msg resp)
    with r1 obtain e det st where "r1 = Inr (Failure e det st)" by auto
    with f q show ?thesis
      by (simp add: fetchAndStoreDomains_def fetchAndStoreDomains_try_def)
  next
    case (Resolved payload st)
    with r1 have r1': "r1 = Inr (Success payload st)" by simp
    let ?s2 = "console (''Fetched '' @ decimal (length (listing_of payload))
                             @ '' domains from Plesk, storing in cache...'') s1"
    have p2: "dbPool ?s2" using p1 by (simp add: console_def emit_def)
    obtain r3 s3 where g: "getConnection env ?s2 = (r3, s3)" by (cases "getConnection env ?s2")
    then have s3: "s3 = ?s2" using getConnection_state [of env ?s2] by simp
    obtain r4 s4 where st: "store_listing env (listing_of payload) s3 = (r4, s4)"
      by (cases "store_listing env (listing_of payload) s3")
    from f q r1' p2 g st
    have "r3 = Inr () \<and> (\<exists>u. r4 = Inr u) \<and> n = length (listing_of payload) \<and> s4 = s'"
      by (auto simp: fetchAndStoreDomains_def fetchAndStoreDomains_try_def Let_def
               split: sum.splits)
    with st s3 s1 Resolved show ?thesis by auto
  qed
qed

text \<open>
  C3, as amended. \<open>fetchAndStoreDomains\<close> never raises: it returns a count or an
  error result. When it returns the count \<open>n\<close> from a client with its pool and a
  table with distinct ids, the listing request was answered, \<open>n\<close> is the length of the
  listing, and every element of the listing has a row with its id that holds the values
  bound for an element of that id, written at the time of the call. The status of that
  row is \<open>unknown\<close> when the id was not in the table before the call; a row that was
  in the table keeps the status it had.
\<close>

theorem fetchAndStoreDomains_stores:
  "(\<exists>r. fst (fetchAndStoreDomains env s) = Inr r)
   \<and> (dbPool s \<and> distinct (map row_id (table s))
        \<and> fst (fetchAndStoreDomains env s) = Inr (Fetched n) \<longrightarrow>
      (\<exists>payload st. upstream env ''get'' (Domains None) = Resolved payload st
         \<and> n = length (listing_of payload)
         \<and> (\<forall>d\<in>set (listing_of payload).
              \<exists>r\<in>set (table (snd (fetchAndStoreDomains env s))).
                row_id r = d_id d
                \<and> (\<exists>d'\<in>set (listing_of payload). stored_as (clock s) d' r)
                \<and> ((row_id r \<notin> row_id ` set (table s) \<and> status r = ''unknown'')
                   \<or> (\<exists>old\<in>set (table s). row_id old = row_id r
                          \<and> status old = status r)))))"
proof (intro conjI impI)
  show "\<exists>r. fst (fetchAndStoreDomains env s) = Inr r" by (rule fetch_never_raises)
next
  assume a: "dbPool s \<and> distinct (map row_id (table s))
        \<and> fst (fetchAndStoreDomains env s) = Inr (Fetched n)"
  obtain s' where f: "fetchAndStoreDomains env s = (Inr (Fetched n), s')"
    using a by (cases "fetchAndStoreDomains env s") auto
  from fetch_success [OF f] a obtain payload st u s3 where
    up: "upstream env ''get'' (Domains None) = Resolved payload st"
    and n: "n = length (listing_of payload)"
    and sl: "store_listing env (listing_of payload) s3 = (Inr u, s')"
    and s3: "table s3 = table s" "clock s3 = clock s"
    by blast
  from a s3 have d3: "distinct (map row_id (table s3))" by simp
  note R = store_listing_rows [OF sl d3, unfolded s3]
  have "\<forall>d\<in>set (listing_of payload). \<exists>r\<in>set (table s').
          row_id r = d_id d
          \<and> (\<exists>d'\<in>set (listing_of payload). stored_as (clock s) d' r)
          \<and> ((row_id r \<notin> row_id ` set (table s) \<and> status r = ''unknown'')
             \<or> (\<exists>old\<in>set (table s). row_id old = row_id r \<and> status old = status r))"
  proof
    fix d assume d: "d \<in> set (listing_of payload)"
    from R have "d_id d \<in> row_id ` set (table s')" using d by blast
    then obtain r where r: "r \<in> set (table s')" "row_id r = d_id d" by auto
    with d have "row_id r \<in> d_id ` set (listing_of payload)" by auto
    with R r have "\<exists>d'\<in>set (listing_of payload). stored_as (clock s) d' r" by blast
    moreover from R r have "(row_id r \<notin> row_id ` set (table s) \<and> status r = ''unknown'')
             \<or> (\<exists>old\<in>set (table s). row_id old = row_id r \<and> status old = status r)"
      by blast
    ultimately show "\<exists>r\<in>set (table s').
          row_id r = d_id d
          \<and> (\<exists>d'\<in>set (listing_of payload). stored_as (clock s) d' r)
          \<and> ((row_id r \<notin> row_id ` set (table s) \<and> status r = ''unknown'')
             \<or> (\<exists>old\<in>set (table s). row_id old = row_id r \<and> status old = status r))"
      using r by blast
  qed
  with up n f show "\<exists>payload st. upstream env ''get'' (Domains None) = Resolved payload st
         \<and> n = length (listing_of payload)
         \<and> (\<forall>d\<in>set (listing_of payload).
              \<exists>r\<in>set (table (snd (fetchAndStoreDomains env s))).
                row_id r = d_id d
                \<and> (\<exists>d'\<in>set (listing_of payload). stored_as (clock s) d' r)
                \<and> ((row_id r \<notin> row_id ` set (table s) \<and> status r = ''unknown'')
                   \<or> (\<exists>old\<in>set (table s). row_id old = row_id r
                          \<and> status old = status r)))"
    by simp
qed

lemmas fetch_defs =
  fetchAndStoreDomains_def fetchAndStoreDomains_try_def executeRequest_def getConnection_def
  execute_def insert_listing_def listing_params_def or_else_def or_default_def truthy_def
  console_def emit_def constructed_def stub_def example_com_def test_org_def
  cached_example_def

theorem fetchAndStoreDomains_stores_witness:
  "dbPool (constructed [] 9) \<and> distinct (map row_id (table (constructed [] 9)))
   \<and> fst (fetchAndStoreDomains stub (constructed [] 9)) = Inr (Fetched 2)
   \<and> map row_id (table (snd (fetchAndStoreDomains stub (constructed [] 9)))) = [1, 2]
   \<and> map status (table (snd (fetchAndStoreDomains stub (constructed [] 9))))
       = [''unknown'', ''unknown'']
   \<and> map last_updated (table (snd (fetchAndStoreDomains stub (constructed [] 9)))) = [9, 9]"
  using fetchAndStoreDomains_stores [of stub "constructed [] 9" 2]
  by (simp add: fetch_defs Let_def)

text \<open>
  The statement of C3 before the amendment, that after a successful call every element
  has status \<open>unknown\<close>, fails where the table holds the first domain as
  \<open>active\<close>: the call returns the count 2 and the row is still \<open>active\<close>, since
  \<open>ON DUPLICATE KEY UPDATE\<close> does not assign \<open>status\<close>.
\<close>

theorem fetchAndStoreDomains_keeps_status:
  "fst (fetchAndStoreDomains stub (constructed [cached_example] 9)) = Inr (Fetched 2)
   \<and> map row_id (table (snd (fetchAndStoreDomains stub (constructed [cached_example] 9))))
       = [1, 2]
   \<and> map status (table (snd (fetchAndStoreDomains stub (constructed [cached_example] 9))))
       = [''active'', ''unknown'']"
  by (simp add: fetch_defs Let_def)

subsection \<open>Order, batches and pauses of a run\<close>

lemma effects_append [simp]: "effects (a @ b) = effects a @ effects b"
  by (simp add: effects_def)

lemma effects_console [simp]: "effects (trace (console m s)) = effects (trace s)"
  by (simp add: console_def emit_def effects_def)

lemma effects_sleep [simp]: "effects (trace (sleep d s)) = effects (trace s) @ [Sleep d]"
  by (simp add: sleep_def emit_def effects_def)

lemma execute_trace: "execute env op s = (r, s') \<Longrightarrow> trace s' = trace s"
  by (auto simp: execute_def split: option.splits sum.splits)

lemma executeRequest_effects:
  "executeRequest env m ep s = (r, s') \<Longrightarrow>
   effects (trace s') = effects (trace s) @ [Request (toLowerCase m) ep]"
  by (auto simp: executeRequest_def Let_def console_def emit_def effects_def
           split: http_outcome.splits option.splits prod.splits)

lemma statusSyncItem_effects [simp]:
  "effects (trace (statusSyncItem env d s)) = effects (trace s) @ [status_request (fst d)]"
proof -
  obtain r s1 where q: "executeRequest env ''GET'' (DomainStatus (fst d)) s = (r, s1)"
    by (cases "executeRequest env ''GET'' (DomainStatus (fst d)) s")
  from executeRequest_effects [OF q]
  have e1: "effects (trace s1) = effects (trace s) @ [status_request (fst d)]"
    by (simp add: status_request_def)
  show ?thesis
  proof (cases r)
    case (Inl e)
    with q e1 show ?thesis by (simp add: statusSyncItem_def statusSyncItem_try_def)
  next
    case (Inr resp)
    obtain r2 s2 where x: "execute env (UpdateStatus (response_status resp) (fst d)) s1 = (r2, s2)"
      by (cases "execute env (UpdateStatus (response_status resp) (fst d)) s1")
    from execute_trace [OF x] have "trace s2 = trace s1" .
    with q Inr x e1 show ?thesis
      by (cases r2) (simp_all add: statusSyncItem_def statusSyncItem_try_def Let_def)
  qed
qed

lemma statusSyncBatch_effects [simp]:
  "effects (trace (statusSyncBatch env b s)) = effects (trace s) @ map (\<lambda>d. status_request (fst d)) b"
  unfolding statusSyncBatch_def by (induction b arbitrary: s) simp_all

lemma batches_of_step:
  "0 < n \<Longrightarrow> i < length xs \<Longrightarrow>
   batches_of n (drop i xs) = take n (drop i xs) # batches_of n (drop (i + n) xs)"
  by (subst batches_of.simps) (simp add: add.commute)

lemma batches_of_Nil [simp]: "batches_of n [] = []"
  by (subst batches_of.simps) simp

lemma batches_of_done: "length xs \<le> i \<Longrightarrow> batches_of n (drop i xs) = []"
  by (subst batches_of.simps) simp

lemma batches_of_empty_iff: "0 < n \<Longrightarrow> batches_of n xs = [] \<longleftrightarrow> xs = []"
  by (subst batches_of.simps) simp

lemma paced_Cons: "paced d (b # bs) = b @ (if bs = [] then [] else Sleep d # paced d bs)"
  by (cases bs) simp_all

lemma statusSyncLoop_effects:
  "effects (trace (statusSyncLoop env ds i s)) =
   effects (trace s) @
   paced 3000 (map (map (\<lambda>d. status_request (fst d))) (batches_of 5 (drop i ds)))"
proof (induction env ds i s rule: statusSyncLoop.induct)
  case (1 env domains i s)
  show ?case
  proof (cases "i < length domains")
    case False
    then show ?thesis
      by (subst statusSyncLoop.simps) (simp add: batches_of_done)
  next
    case True
    have more: "batches_of 5 (drop (i + 5) domains) = [] \<longleftrightarrow> \<not> i + 5 < length domains"
      by (auto simp: batches_of_empty_iff)
    from "1" [OF True] True more show ?thesis
      by (subst statusSyncLoop.simps)
         (simp add: Let_def batches_of_step [of 5 i domains] paced_Cons slice_def)
  qed
qed


lemma syncDomain_effects [simp]:
  "effects (trace (syncDomain env d s)) = effects (trace s) @ [status_request (d_id d)]"
proof -
  obtain r s1 where q: "executeRequest env ''GET'' (DomainStatus (d_id d)) s = (r, s1)"
    by (cases "executeRequest env ''GET'' (DomainStatus (d_id d)) s")
  from executeRequest_effects [OF q]
  have e1: "effects (trace s1) = effects (trace s) @ [status_request (d_id d)]"
    by (simp add: status_request_def)
  obtain st se s2 where f: "fetch_status env d s = ((st, se), s2)"
    by (cases "fetch_status env d s") auto
  with q e1 have e2: "effects (trace s2) = effects (trace s) @ [status_request (d_id d)]"
    by (cases r) (auto simp: fetch_status_def)
  obtain r3 s3 where x: "execute env (InsertSynced (synced_params (clock s2) d) st se) s2 = (r3, s3)"
    by (cases "execute env (InsertSynced (synced_params (clock s2) d) st se) s2")
  from execute_trace [OF x] have "trace s3 = trace s2" .
  with f x e2 show ?thesis
    by (cases r3) (simp_all add: syncDomain_def syncDomain_try_def)
qed

lemma syncDomainBatch_effects [simp]:
  "effects (trace (syncDomainBatch env b s)) =
   effects (trace s) @ map (\<lambda>d. status_request (d_id d)) b"
  unfolding syncDomainBatch_def by (induction b arbitrary: s) simp_all

lemma backgroundSyncLoop_effects:
  "effects (trace (backgroundSyncLoop env ds i s)) =
   effects (trace s) @
   paced 2000 (map (map (\<lambda>d. status_request (d_id d))) (batches_of 10 (drop i ds)))"
proof (induction env ds i s rule: backgroundSyncLoop.induct)
  case (1 env domains i s)
  show ?case
  proof (cases "i < length domains")
    case False
    then show ?thesis
      by (subst backgroundSyncLoop.simps) (simp add: batches_of_done)
  next
    case True
    have more: "batches_of 10 (drop (i + 10) domains) = [] \<longleftrightarrow> \<not> i + 10 < length domains"
      by (auto simp: batches_of_empty_iff)
    from "1" [OF True] True more show ?thesis
      by (subst backgroundSyncLoop.simps)
         (simp add: Let_def batches_of_step [of 10 i domains] paced_Cons slice_def)
  qed
qed

lemma batches_of_map: "batches_of n (map f xs) = map (map f) (batches_of n xs)"
proof (induction n xs rule: batches_of.induct)
  case (1 n xs)
  show ?case
  proof (cases "n = 0 \<or> xs = []")
    case True
    then show ?thesis by (subst (1 2) batches_of.simps) auto
  next
    case False
    with "1" show ?thesis
      by (subst (1 2) batches_of.simps) (simp add: take_map drop_map)
  qed
qed

lemma div_add_one:
  fixes k n :: nat
  shows "0 < n \<Longrightarrow> (k + n) div n = Suc (k div n)"
  by (simp add: div_add_self2)

lemma ceil_div_step:
  fixes m n :: nat
  assumes "0 < n" "0 < m"
  shows "(m + n - 1) div n = Suc ((m - n + n - 1) div n)"
proof (cases "n \<le> m")
  case True
  define k where "k = m - n + n - 1"
  from True assms have "m + n - 1 = k + n" unfolding k_def by arith
  then have "(m + n - 1) div n = (k + n) div n" by (rule arg_cong)
  also have "\<dots> = Suc (k div n)" using assms(1) by (rule div_add_one)
  finally show ?thesis unfolding k_def .
next
  case False
  define k where "k = m - 1"
  define j where "j = m - n + n - 1"
  from False assms have b: "m + n - 1 = k + n" and c: "k < n" and a: "j < n"
    unfolding k_def j_def by arith+
  from b have "(m + n - 1) div n = (k + n) div n" by (rule arg_cong)
  also have "\<dots> = Suc (k div n)" using assms(1) by (rule div_add_one)
  also have "k div n = 0" using c by (rule div_less)
  also have "0 = j div n" using a by (simp only: div_less)
  finally show ?thesis unfolding j_def .
qed

lemma length_batches_of: "0 < n \<Longrightarrow> length (batches_of n xs) = (length xs + n - 1) div n"
proof (induction n xs rule: batches_of.induct)
  case (1 n xs)
  show ?case
  proof (cases "xs = []")
    case True
    have "(n - 1) div n = 0" using "1.prems" by (intro div_less) arith
    with True show ?thesis by simp
  next
    case False
    from False "1.prems" have "\<not> (n = 0 \<or> xs = [])" by simp
    from "1.IH" [OF this "1.prems"]
    have IH: "length (batches_of n (drop n xs)) = (length xs - n + n - 1) div n"
      by (simp only: length_drop)
    have "batches_of n xs = take n xs # batches_of n (drop n xs)"
      using False "1.prems" by (subst batches_of.simps) simp
    then have step: "length (batches_of n xs) = Suc (length (batches_of n (drop n xs)))"
      by (simp only: list.size)
    from False have pos: "0 < length xs" by simp
    from step IH ceil_div_step [OF "1.prems" pos] show ?thesis by (simp only:)
  qed
qed

lemma sleeps_append [simp]: "sleeps (a @ b) = sleeps a + sleeps b"
  by (simp add: sleeps_def)

lemma sleeps_Request [simp]: "sleeps (Request m ep # tr) = sleeps tr"
  by (simp add: sleeps_def)

lemma sleeps_effects [simp]: "sleeps (effects tr) = sleeps tr"
proof -
  have "\<And>e. (is_effect e \<and> is_sleep e) = is_sleep e"
    by (case_tac e) simp_all
  then show ?thesis by (simp add: sleeps_def effects_def)
qed

lemma sleeps_paced:
  "(\<And>b. b \<in> set bs \<Longrightarrow> sleeps b = 0) \<Longrightarrow> sleeps (paced d bs) = length bs - 1"
proof (induction d bs rule: paced.induct)
  case (1 delay)
  then show ?case by (simp add: sleeps_def)
next
  case (2 delay b)
  then show ?case by simp
next
  case (3 delay b b' bs)
  then have "sleeps b = 0" "sleeps (paced delay (b' # bs)) = length (b' # bs) - 1" by simp_all
  then show ?case by (simp add: sleeps_def)
qed

lemma sleeps_requests:
  "b \<in> set (map (map (\<lambda>x. status_request (f x))) bs) \<Longrightarrow> sleeps b = 0"
  by (auto simp: sleeps_def status_request_def filter_empty_conv)


lemma dbPool_console [simp]: "dbPool (console m s) = dbPool s"
  by (simp add: console_def emit_def)

lemma select_id_name_batches:
  "map (map (\<lambda>d. status_request (fst d))) (batches_of n (select_id_name rows)) =
   map (map (\<lambda>r. status_request (row_id r))) (batches_of n (sort_key last_updated rows))"
  by (simp add: select_id_name_def batches_of_map comp_def)

lemma performStatusSync_effects:
  assumes "dbPool s" "db_fault env GetConnection = None" "db_fault env SelectIdName = None"
  shows "effects (trace (snd (performStatusSync env s))) =
         effects (trace s) @
         paced 3000 (map (map (\<lambda>r. status_request (row_id r)))
                       (batches_of 5 (sort_key last_updated (table s))))"
  using assms
  by (simp add: performStatusSync_def performStatusSync_try_def getConnection_def
        query_id_name_def Let_def statusSyncLoop_effects select_id_name_batches)

lemma performBackgroundSync_effects:
  assumes "dbPool s" "db_fault env GetConnection = None"
    "upstream env ''get'' (Domains None) = Resolved payload st"
  shows "effects (trace (snd (performBackgroundSync env s))) =
         effects (trace s) @
         Request ''get'' (Domains None) #
         paced 2000 (map (map (\<lambda>d. status_request (d_id d)))
                       (batches_of 10 (listing_of payload)))"
proof -
  let ?s0 = "console ''Starting background domain sync...'' s"
  obtain r s1 where q: "executeRequest env ''GET'' (Domains None) ?s0 = (r, s1)"
    by (cases "executeRequest env ''GET'' (Domains None) ?s0")
  from executeRequest_effects [OF q]
  have e1: "effects (trace s1) = effects (trace s) @ [Request ''get'' (Domains None)]"
    by simp
  from executeRequest_result [OF q] assms(3) have r: "r = Inr (Success payload st)" by simp
  from cf_executeRequest [OF q] assms(1) have p1: "dbPool s1" by (simp add: client_fields_def)
  show ?thesis
    using q r e1 p1 assms(2)
    by (simp add: performBackgroundSync_def performBackgroundSync_try_def getConnection_def
          Let_def backgroundSyncLoop_effects)
qed


text \<open>
  C5. A status run that got its connection and its list requests the status of the
  cached records in ascending order of \<open>last_updated\<close> (the order is a rearrangement
  of the table), cut into batches of 5 that run one after the other, with a pause of
  3000 ms between two consecutive batches and none after the last: with \<open>n\<close> cached
  records the run pauses \<open>(n + 4) div 5 - 1\<close> times, which is 0 for \<open>n = 0\<close>. The
  combined sync, once the listing has arrived and the connection is there, requests the
  status of the listed domains in batches of 10 with pauses of 2000 ms in the same
  way, \<open>(n + 9) div 10 - 1\<close> pauses for \<open>n\<close> listed domains. Requests and pauses
  are all that the runs do to the outside.
\<close>

theorem sync_runs_in_paced_batches:
  "(dbPool s \<and> db_fault env GetConnection = None \<and> db_fault env SelectIdName = None \<longrightarrow>
      sorted (map last_updated (sort_key last_updated (table s)))
      \<and> mset (sort_key last_updated (table s)) = mset (table s)
      \<and> effects (trace (snd (performStatusSync env s))) =
          effects (trace s) @
          paced 3000 (map (map (\<lambda>r. status_request (row_id r)))
                        (batches_of 5 (sort_key last_updated (table s))))
      \<and> sleeps (trace (snd (performStatusSync env s))) =
          sleeps (trace s) + ((length (table s) + 4) div 5 - 1))
   \<and> (dbPool s \<and> db_fault env GetConnection = None
        \<and> upstream env ''get'' (Domains None) = Resolved payload st \<longrightarrow>
      effects (trace (snd (performBackgroundSync env s))) =
          effects (trace s) @
          Request ''get'' (Domains None) #
          paced 2000 (map (map (\<lambda>d. status_request (d_id d)))
                        (batches_of 10 (listing_of payload)))
      \<and> sleeps (trace (snd (performBackgroundSync env s))) =
          sleeps (trace s) + ((length (listing_of payload) + 9) div 10 - 1))"
proof (intro conjI impI)
  show "sorted (map last_updated (sort_key last_updated (table s)))"
    by (rule sorted_sort_key)
  show "mset (sort_key last_updated (table s)) = mset (table s)"
    by (rule mset_sort)
next
  assume a: "dbPool s \<and> db_fault env GetConnection = None \<and> db_fault env SelectIdName = None"
  then show e: "effects (trace (snd (performStatusSync env s))) =
          effects (trace s) @
          paced 3000 (map (map (\<lambda>r. status_request (row_id r)))
                        (batches_of 5 (sort_key last_updated (table s))))"
    by (simp add: performStatusSync_effects)
  have "sleeps (trace (snd (performStatusSync env s))) =
        sleeps (effects (trace (snd (performStatusSync env s))))" by simp
  also have "\<dots> = sleeps (trace s) +
      sleeps (paced 3000 (map (map (\<lambda>r. status_request (row_id r)))
                        (batches_of 5 (sort_key last_updated (table s)))))"
    unfolding e by simp
  also have "sleeps (paced 3000 (map (map (\<lambda>r. status_request (row_id r)))
                        (batches_of 5 (sort_key last_updated (table s))))) =
      length (map (map (\<lambda>r. status_request (row_id r)))
                        (batches_of 5 (sort_key last_updated (table s)))) - 1"
    by (rule sleeps_paced) (rule sleeps_requests)
  also have "\<dots> = (length (table s) + 4) div 5 - 1"
    by (simp add: length_batches_of)
  finally show "sleeps (trace (snd (performStatusSync env s))) =
          sleeps (trace s) + ((length (table s) + 4) div 5 - 1)" .
next
  assume a: "dbPool s \<and> db_fault env GetConnection = None
        \<and> upstream env ''get'' (Domains None) = Resolved payload st"
  then show e: "effects (trace (snd (performBackgroundSync env s))) =
          effects (trace s) @
          Request ''get'' (Domains None) #
          paced 2000 (map (map (\<lambda>d. status_request (d_id d)))
                        (batches_of 10 (listing_of payload)))"
    by (simp add: performBackgroundSync_effects)
  have "sleeps (trace (snd (performBackgroundSync env s))) =
        sleeps (effects (trace (snd (performBackgroundSync env s))))" by simp
  also have "\<dots> = sleeps (trace s) +
      sleeps (paced 2000 (map (map (\<lambda>d. status_request (d_id d)))
                        (batches_of 10 (listing_of payload))))"
    unfolding e by simp
  also have "sleeps (paced 2000 (map (map (\<lambda>d. status_request (d_id d)))
                        (batches_of 10 (listing_of payload)))) =
      length (map (map (\<lambda>d. status_request (d_id d)))
                        (batches_of 10 (listing_of payload))) - 1"
    by (rule sleeps_paced) (rule sleeps_requests)
  also have "\<dots> = (length (listing_of payload) + 9) div 10 - 1"
    by (simp add: length_batches_of)
  finally show "sleeps (trace (snd (performBackgroundSync env s))) =
          sleeps (trace s) + ((length (listing_of payload) + 9) div 10 - 1)" .
qed

theorem sync_runs_in_paced_batches_witness:
  "dbPool (constructed six_rows 100) \<and> db_fault stub GetConnection = None
   \<and> db_fault stub SelectIdName = None
   \<and> effects (trace (snd (performStatusSync stub (constructed six_rows 100)))) =
       [status_request 6, status_request 5, status_request 4, status_request 3,
        status_request 2, Sleep 3000, status_request 1]
   \<and> sleeps (trace (snd (performStatusSync stub (constructed six_rows 100)))) = 1
   \<and> upstream stub ''get'' (Domains None) = Resolved (Items [example_com, test_org]) 200
   \<and> effects (trace (snd (performBackgroundSync stub (constructed six_rows 100)))) =
       [Request ''get'' (Domains None), status_request 1, status_request 2]
   \<and> sleeps (trace (snd (performBackgroundSync stub (constructed six_rows 100)))) = 0"
  using sync_runs_in_paced_batches
    [of "constructed six_rows 100" stub "Items [example_com, test_org]" 200]
  by (simp add: constructed_def stub_def six_rows_def row_at_def batches_of.simps
        effects_def sleeps_def example_com_def test_org_def)

subsection \<open>Failures of single records in a status run\<close>

lemma executeRequest_status:
  assumes "executeRequest env ''GET'' (DomainStatus i) s = (r, s1)"
  shows "\<exists>resp. r = Inr resp \<and> response_status resp = fetched_status env i"
  using assms
  by (auto simp: executeRequest_def Let_def fetched_status_def
           split: http_outcome.splits option.splits prod.splits)

lemma status_synced_refl: "list_all2 (status_synced env {}) rows rows"
  by (simp add: list_all2_same status_synced_def)

lemma status_synced_written:
  "db_fault env (UpdateStatus (fetched_status env i) i) = None \<Longrightarrow>
   list_all2 (status_synced env {i}) rows (update_status now (fetched_status env i) i rows)"
  by (simp add: update_status_def list_all2_map2 list_all2_same status_synced_def)

lemma status_synced_fault:
  "db_fault env (UpdateStatus (fetched_status env i) i) \<noteq> None \<Longrightarrow>
   list_all2 (status_synced env {i}) rows rows"
  by (auto simp: list_all2_same status_synced_def)

lemma status_synced_update:
  "list_all2 (status_synced env {i}) rows
     (if db_fault env (UpdateStatus (fetched_status env i) i) = None
      then update_status now (fetched_status env i) i rows else rows)"
  using status_synced_written [of env i rows now] status_synced_fault [of env i rows]
  by (cases "db_fault env (UpdateStatus (fetched_status env i) i)") simp_all

lemma status_synced_trans:
  assumes "list_all2 (status_synced env I) a b" "list_all2 (status_synced env J) b c"
  shows "list_all2 (status_synced env (I \<union> J)) a c"
proof (rule list_all2_trans [OF _ assms])
  fix x y z
  assume "status_synced env I x y" "status_synced env J y z"
  then show "status_synced env (I \<union> J) x z"
    by (auto simp: status_synced_def)
qed

lemma statusSyncItem_table_cases:
  "table (statusSyncItem env d s) =
     (if db_fault env (UpdateStatus (fetched_status env (fst d)) (fst d)) = None
      then update_status (clock s) (fetched_status env (fst d)) (fst d) (table s)
      else table s)"
proof -
  obtain r s1 where q: "executeRequest env ''GET'' (DomainStatus (fst d)) s = (r, s1)"
    by (cases "executeRequest env ''GET'' (DomainStatus (fst d)) s")
  from executeRequest_status [OF q] obtain resp where
    r: "r = Inr resp" and st: "response_status resp = fetched_status env (fst d)" by blast
  from executeRequest_result [OF q] have s1: "table s1 = table s" "clock s1 = clock s"
    by simp_all
  show ?thesis
    using q r st s1
    by (simp add: statusSyncItem_def statusSyncItem_try_def Let_def execute_def
             split: option.splits)
qed

lemma statusSyncItem_synced:
  "list_all2 (status_synced env {fst d}) (table s) (table (statusSyncItem env d s))"
  unfolding statusSyncItem_table_cases by (rule status_synced_update)

lemma statusSyncBatch_synced:
  "list_all2 (status_synced env (fst ` set b)) (table s) (table (statusSyncBatch env b s))"
proof (induction b arbitrary: s)
  case Nil
  then show ?case by (simp add: statusSyncBatch_def status_synced_refl)
next
  case (Cons d b)
  have "list_all2 (status_synced env ({fst d} \<union> fst ` set b)) (table s)
          (table (statusSyncBatch env b (statusSyncItem env d s)))"
    using statusSyncItem_synced Cons.IH by (rule status_synced_trans)
  then show ?case by (simp add: statusSyncBatch_def)
qed

lemma table_sleep [simp]: "table (sleep d s) = table s"
  by (simp add: sleep_def emit_def)

lemma statusSyncLoop_synced:
  "list_all2 (status_synced env (fst ` set (drop i ds))) (table s)
     (table (statusSyncLoop env ds i s))"
proof (induction env ds i s rule: statusSyncLoop.induct)
  case (1 env domains i s)
  show ?case
  proof (cases "i < length domains")
    case False
    then show ?thesis
      by (subst statusSyncLoop.simps) (simp add: status_synced_refl)
  next
    case True
    let ?b = "slice domains i (i + 5)"
    let ?s2 = "(let s1 = statusSyncBatch env ?b s
           in if i + 5 < length domains then
                sleep 3000
                  (console (''Processed batch '' @ decimal (i div 5 + 1) @ '', waiting ''
                            @ decimal (3000 div 1000) @ ''s...'') s1)
              else s1)"
    have t2: "table ?s2 = table (statusSyncBatch env ?b s)" by (simp add: Let_def)
    have first: "list_all2 (status_synced env (fst ` set ?b)) (table s) (table ?s2)"
      unfolding t2 by (rule statusSyncBatch_synced)
    have rest: "list_all2 (status_synced env (fst ` set (drop (i + 5) domains))) (table ?s2)
        (table (statusSyncLoop env domains (i + 5) ?s2))"
      using "1" [OF True] .
    have "take 5 (drop i domains) @ drop 5 (drop i domains) = drop i domains"
      by (rule append_take_drop_id)
    then have "set (take 5 (drop i domains)) \<union> set (drop 5 (drop i domains))
        = set (drop i domains)"
      by (metis set_append)
    then have "set ?b \<union> set (drop (i + 5) domains) = set (drop i domains)"
      by (simp add: slice_def add.commute)
    then have u: "fst ` set ?b \<union> fst ` set (drop (i + 5) domains) = fst ` set (drop i domains)"
      by (metis image_Un)
    have "list_all2 (status_synced env (fst ` set ?b \<union> fst ` set (drop (i + 5) domains)))
        (table s) (table (statusSyncLoop env domains (i + 5) ?s2))"
      using first rest by (rule status_synced_trans)
    with True show ?thesis
      unfolding u by (subst statusSyncLoop.simps) simp
  qed
qed

lemma performStatusSync_never_raises: "\<exists>s'. performStatusSync env s = (Inr (), s')"
  by (simp add: performStatusSync_def split: prod.splits sum.splits)

lemma performStatusSync_synced:
  assumes "dbPool s" "db_fault env GetConnection = None" "db_fault env SelectIdName = None"
  shows "list_all2 (status_synced env (row_id ` set (table s))) (table s)
           (table (snd (performStatusSync env s)))"
proof -
  have "fst ` set (drop 0 (select_id_name (table s))) = row_id ` set (table s)"
    by (force simp: select_id_name_def)
  with statusSyncLoop_synced [of env 0 "select_id_name (table s)"
      "console (''Syncing status for '' @ decimal (length (select_id_name (table s)))
                                     @ '' domains...'')
         (console ''Starting background status sync...'' s)"]
  show ?thesis
    using assms
    by (simp add: performStatusSync_def performStatusSync_try_def getConnection_def
          query_id_name_def Let_def)
qed


lemma concat_batches_of: "0 < n \<Longrightarrow> concat (batches_of n xs) = xs"
proof (induction n xs rule: batches_of.induct)
  case (1 n xs)
  show ?case
  proof (cases "xs = []")
    case True
    then show ?thesis by simp
  next
    case False
    with "1" have "concat (batches_of n (drop n xs)) = drop n xs" by simp
    with False "1.prems" show ?thesis by (subst batches_of.simps) simp
  qed
qed

lemma set_paced: "set (concat bs) \<subseteq> set (paced d bs)"
  by (induction d bs rule: paced.induct) auto

lemma set_effects: "set (effects tr) \<subseteq> set tr"
  by (simp add: effects_def)

lemma performStatusSync_requests_all:
  assumes "dbPool s" "db_fault env GetConnection = None" "db_fault env SelectIdName = None"
    and r: "r \<in> set (table s)"
  shows "status_request (row_id r) \<in> set (trace (snd (performStatusSync env s)))"
proof -
  let ?f = "\<lambda>r. status_request (row_id r)"
  let ?bs = "map (map ?f) (batches_of 5 (sort_key last_updated (table s)))"
  have "concat ?bs = map ?f (concat (batches_of 5 (sort_key last_updated (table s))))"
    by (simp add: map_concat)
  also have "\<dots> = map ?f (sort_key last_updated (table s))"
    by (simp add: concat_batches_of)
  finally have "set (concat ?bs) = ?f ` set (table s)" by simp
  with r have "?f r \<in> set (concat ?bs)" by blast
  with set_paced [of ?bs 3000] have "?f r \<in> set (paced 3000 ?bs)" by blast
  then have "?f r \<in> set (effects (trace (snd (performStatusSync env s))))"
    using performStatusSync_effects [OF assms(1-3)] by simp
  with set_effects show ?thesis by blast
qed

lemma trace_console: "trace (console m s) = trace s @ [Log m]"
  by (simp add: console_def emit_def)

lemma trace_sleep: "trace (sleep d s) = trace s @ [Sleep d]"
  by (simp add: sleep_def emit_def)

lemma executeRequest_trace:
  assumes "executeRequest env m ep s = (r, s1)"
  shows "set (trace s) \<subseteq> set (trace s1)"
    and "upstream env (toLowerCase m) ep = Rejected msg resp \<Longrightarrow>
         Log (''Plesk API request failed: '' @ msg) \<in> set (trace s1)"
  using assms
  by (auto simp: executeRequest_def Let_def console_def emit_def
           split: http_outcome.splits option.splits prod.splits)

lemma statusSyncItem_trace:
  shows "set (trace s) \<subseteq> set (trace (statusSyncItem env d s))"
    and "upstream env ''get'' (DomainStatus (fst d)) = Rejected msg resp \<Longrightarrow>
         Log (''Plesk API request failed: '' @ msg) \<in> set (trace (statusSyncItem env d s))"
proof -
  obtain r s1 where q: "executeRequest env ''GET'' (DomainStatus (fst d)) s = (r, s1)"
    by (cases "executeRequest env ''GET'' (DomainStatus (fst d)) s")
  from executeRequest_status [OF q] obtain resp' where r: "r = Inr resp'" by blast
  obtain r2 s2 where x: "execute env (UpdateStatus (response_status resp') (fst d)) s1 = (r2, s2)"
    by (cases "execute env (UpdateStatus (response_status resp') (fst d)) s1")
  from execute_trace [OF x] have t2: "trace s2 = trace s1" .
  have sub: "set (trace s1) \<subseteq> set (trace (statusSyncItem env d s))"
    using q r x t2
    by (cases r2) (auto simp: statusSyncItem_def statusSyncItem_try_def Let_def trace_console)
  from executeRequest_trace(1) [OF q] sub
  show "set (trace s) \<subseteq> set (trace (statusSyncItem env d s))" by blast
  assume "upstream env ''get'' (DomainStatus (fst d)) = Rejected msg resp"
  with executeRequest_trace(2) [OF q, of msg resp] sub
  show "Log (''Plesk API request failed: '' @ msg) \<in> set (trace (statusSyncItem env d s))"
    by auto
qed

lemma statusSyncBatch_trace_mono:
  "set (trace s) \<subseteq> set (trace (statusSyncBatch env b s))"
proof (induction b arbitrary: s)
  case Nil
  then show ?case by (simp add: statusSyncBatch_def)
next
  case (Cons d b)
  from statusSyncItem_trace(1) [of s env d] Cons.IH [of "statusSyncItem env d s"]
  show ?case by (auto simp: statusSyncBatch_def)
qed

lemma statusSyncBatch_logs:
  assumes "d \<in> set b" "upstream env ''get'' (DomainStatus (fst d)) = Rejected msg resp"
  shows "Log (''Plesk API request failed: '' @ msg) \<in> set (trace (statusSyncBatch env b s))"
  using assms(1)
proof (induction b arbitrary: s)
  case Nil
  then show ?case by simp
next
  case (Cons a b)
  show ?case
  proof (cases "d = a")
    case True
    from statusSyncItem_trace(2) [OF assms(2), of s] True
    have "Log (''Plesk API request failed: '' @ msg) \<in> set (trace (statusSyncItem env a s))"
      by simp
    with statusSyncBatch_trace_mono [of "statusSyncItem env a s" env b]
    show ?thesis by (auto simp: statusSyncBatch_def)
  next
    case False
    with Cons.prems have "d \<in> set b" by simp
    from Cons.IH [OF this, of "statusSyncItem env a s"] show ?thesis
      by (simp add: statusSyncBatch_def)
  qed
qed

lemma statusSyncLoop_trace_mono:
  "set (trace s) \<subseteq> set (trace (statusSyncLoop env ds i s))"
proof (induction env ds i s rule: statusSyncLoop.induct)
  case (1 env domains i s)
  show ?case
  proof (cases "i < length domains")
    case False
    then show ?thesis by (subst statusSyncLoop.simps) simp
  next
    case True
    from "1" [OF True] statusSyncBatch_trace_mono [of s env "slice domains i (i + 5)"] True
    show ?thesis
      by (subst statusSyncLoop.simps) (auto simp: Let_def trace_console trace_sleep split: if_splits)
  qed
qed

lemma statusSyncLoop_logs:
  "upstream env ''get'' (DomainStatus (fst d)) = Rejected msg resp \<Longrightarrow>
   d \<in> set (drop i ds) \<Longrightarrow>
   Log (''Plesk API request failed: '' @ msg) \<in> set (trace (statusSyncLoop env ds i s))"
proof (induction env ds i s rule: statusSyncLoop.induct)
  case (1 env domains i s)
  note up = "1.prems"(1)
  show ?case
  proof (cases "i < length domains")
    case False
    with "1.prems"(2) show ?thesis by simp
  next
    case True
    let ?b = "slice domains i (i + 5)"
    let ?s2 = "(let s1 = statusSyncBatch env ?b s
           in if i + 5 < length domains then
                sleep 3000
                  (console (''Processed batch '' @ decimal (i div 5 + 1) @ '', waiting ''
                            @ decimal (3000 div 1000) @ ''s...'') s1)
              else s1)"
    have unfold: "statusSyncLoop env domains i s = statusSyncLoop env domains (i + 5) ?s2"
      using True by (subst statusSyncLoop.simps) simp
    have "take 5 (drop i domains) @ drop 5 (drop i domains) = drop i domains"
      by (rule append_take_drop_id)
    then have "set (take 5 (drop i domains)) \<union> set (drop 5 (drop i domains))
        = set (drop i domains)"
      by (metis set_append)
    with "1.prems"(2) have "d \<in> set ?b \<or> d \<in> set (drop (i + 5) domains)"
      by (auto simp: slice_def add.commute)
    then show ?thesis
    proof
      assume "d \<in> set ?b"
      then have "Log (''Plesk API request failed: '' @ msg) \<in> set (trace (statusSyncBatch env ?b s))"
        using up by (rule statusSyncBatch_logs)
      then have "Log (''Plesk API request failed: '' @ msg) \<in> set (trace ?s2)"
        by (auto simp: Let_def trace_console trace_sleep)
      with statusSyncLoop_trace_mono [of ?s2 env domains "i + 5"] show ?thesis
        unfolding unfold by blast
    next
      assume "d \<in> set (drop (i + 5) domains)"
      from "1.IH" [OF True up this] show ?thesis unfolding unfold .
    qed
  qed
qed


lemma performStatusSync_logs:
  assumes "dbPool s" "db_fault env GetConnection = None" "db_fault env SelectIdName = None"
    and r: "r \<in> set (table s)"
    and up: "upstream env ''get'' (DomainStatus (row_id r)) = Rejected msg resp"
  shows "Log (''Plesk API request failed: '' @ msg)
         \<in> set (trace (snd (performStatusSync env s)))"
proof -
  let ?ds = "select_id_name (table s)"
  let ?s3 = "console (''Syncing status for '' @ decimal (length ?ds) @ '' domains...'')
               (console ''Starting background status sync...'' s)"
  from r have "(row_id r, name r) \<in> set (drop 0 ?ds)"
    by (force simp: select_id_name_def)
  moreover have "upstream env ''get'' (DomainStatus (fst (row_id r, name r))) = Rejected msg resp"
    using up by simp
  ultimately have "Log (''Plesk API request failed: '' @ msg)
      \<in> set (trace (statusSyncLoop env ?ds 0 ?s3))"
    by (rule statusSyncLoop_logs [rotated])
  then show ?thesis
    using assms(1-3)
    by (simp add: performStatusSync_def performStatusSync_try_def getConnection_def
          query_id_name_def Let_def trace_console)
qed

text \<open>
  C6. A status run never raises: \<open>performStatusSync\<close> returns normally from every
  state, whatever the remote API and the store do. When the run got its connection and
  its list, the status of every cached record is requested, and what becomes of a
  record depends on that record alone: its status is the one derived from the answer
  to its own request if its own update was not stopped by a storage fault, and the one
  it had otherwise. No failure of another record's request or update changes this.
\<close>

theorem status_run_isolates_failures:
  "(\<exists>s'. performStatusSync env s = (Inr (), s'))
   \<and> (dbPool s \<and> db_fault env GetConnection = None \<and> db_fault env SelectIdName = None \<longrightarrow>
        (\<forall>r\<in>set (table s).
           status_request (row_id r) \<in> set (trace (snd (performStatusSync env s))))
        \<and> list_all2
            (\<lambda>old new. row_id new = row_id old
               \<and> status new =
                   (if db_fault env
                         (UpdateStatus (fetched_status env (row_id old)) (row_id old)) = None
                    then fetched_status env (row_id old) else status old))
            (table s) (table (snd (performStatusSync env s))))"
proof (intro conjI impI ballI)
  show "\<exists>s'. performStatusSync env s = (Inr (), s')" by (rule performStatusSync_never_raises)
next
  fix r
  assume "dbPool s \<and> db_fault env GetConnection = None \<and> db_fault env SelectIdName = None"
    and "r \<in> set (table s)"
  then show "status_request (row_id r) \<in> set (trace (snd (performStatusSync env s)))"
    by (simp add: performStatusSync_requests_all)
next
  assume "dbPool s \<and> db_fault env GetConnection = None \<and> db_fault env SelectIdName = None"
  then have "list_all2 (status_synced env (row_id ` set (table s))) (table s)
           (table (snd (performStatusSync env s)))"
    by (simp add: performStatusSync_synced)
  then show "list_all2
            (\<lambda>old new. row_id new = row_id old
               \<and> status new =
                   (if db_fault env
                         (UpdateStatus (fetched_status env (row_id old)) (row_id old)) = None
                    then fetched_status env (row_id old) else status old))
            (table s) (table (snd (performStatusSync env s)))"
    by (rule list.rel_mono_strong) (simp add: status_synced_def)
qed

lemmas run_defs =
  performStatusSync_def performStatusSync_try_def getConnection_def query_id_name_def
  select_id_name_def statusSyncLoop.simps statusSyncBatch_def statusSyncItem_def
  statusSyncItem_try_def executeRequest_def execute_def update_status_def
  or_default_def slice_def sleep_def console_def emit_def constructed_def
  row_at_def five_rows_def flaky_def fetched_status_def status_request_def

theorem status_run_isolates_failures_witness:
  "dbPool (constructed five_rows 100) \<and> db_fault flaky GetConnection = None
   \<and> db_fault flaky SelectIdName = None
   \<and> fst (performStatusSync flaky (constructed five_rows 100)) = Inr ()
   \<and> map status (table (snd (performStatusSync flaky (constructed five_rows 100)))) =
       [''active'', ''active'', ''unknown'', ''suspended'', ''active'']
   \<and> status_request 5 \<in> set (trace (snd (performStatusSync flaky (constructed five_rows 100))))"
  using status_run_isolates_failures [of flaky "constructed five_rows 100"]
  by (simp add: run_defs Let_def)

text \<open>
  What a failed status request leaves behind. \<open>executeRequest\<close> catches whatever the
  HTTP client throws, writes the message to the console and resolves with
  \<open>success: false\<close>; so neither caller ever sees an exception from it.
  \<open>performStatusSync\<close> writes with \<open>UPDATE domain_cache SET status = ?, last_updated =
  NOW()\<close> only: no run changes a \<open>sync_error\<close>. In \<open>syncDomainBatch\<close> the \<open>catch\<close>
  that assigns \<open>syncError = statusError.message\<close> is never entered, and the value bound
  for the column \<open>sync_error\<close> is always \<open>null\<close>.
\<close>

lemma list_all2_map_eq:
  "list_all2 (\<lambda>a b. f a = g b) xs ys \<Longrightarrow> map f xs = map g ys"
  by (induction rule: list_all2_induct) simp_all

lemma performStatusSync_sync_error:
  "map sync_error (table (snd (performStatusSync env s))) = map sync_error (table s)"
proof (cases "dbPool s \<and> db_fault env GetConnection = None \<and> db_fault env SelectIdName = None")
  case True
  then have "list_all2 (status_synced env (row_id ` set (table s))) (table s)
           (table (snd (performStatusSync env s)))"
    by (simp add: performStatusSync_synced)
  then have "list_all2 (\<lambda>old new. sync_error old = sync_error new) (table s)
           (table (snd (performStatusSync env s)))"
    by (rule list.rel_mono_strong) (simp add: status_synced_def)
  then show ?thesis by (simp add: list_all2_map_eq)
next
  case False
  then have "table (snd (performStatusSync env s)) = table s"
    by (auto simp: performStatusSync_def performStatusSync_try_def getConnection_def
          query_id_name_def Let_def split: option.splits)
  then show ?thesis by simp
qed

lemma fetch_status_binds_null: "snd (fst (fetch_status env d s)) = None"
proof -
  obtain q s1 where q: "executeRequest env ''GET'' (DomainStatus (d_id d)) s = (q, s1)"
    by (cases "executeRequest env ''GET'' (DomainStatus (d_id d)) s")
  from executeRequest_result [OF q] obtain r where "q = Inr r"
    by (auto split: http_outcome.splits)
  with q show ?thesis by (simp add: fetch_status_def)
qed

lemma performStatusSync_failed_fetch:
  assumes "dbPool s" "db_fault env GetConnection = None" "db_fault env SelectIdName = None"
  shows "list_all2
        (\<lambda>old new. row_id new = row_id old \<and> sync_error new = sync_error old
           \<and> (\<forall>msg resp.
                 upstream env ''get'' (DomainStatus (row_id old)) = Rejected msg resp \<longrightarrow>
                 status new =
                   (if db_fault env (UpdateStatus ''unknown'' (row_id old)) = None
                    then ''unknown'' else status old)
                 \<and> Log (''Plesk API request failed: '' @ msg)
                     \<in> set (trace (snd (performStatusSync env s)))))
        (table s) (table (snd (performStatusSync env s)))"
proof -
  let ?s' = "snd (performStatusSync env s)"
  from assms have syn: "list_all2 (status_synced env (row_id ` set (table s))) (table s) (table ?s')"
    by (simp add: performStatusSync_synced)
  show ?thesis
  proof (rule list.rel_mono_strong [OF syn])
    fix old new
    assume old: "old \<in> set (table s)" and "new \<in> set (table ?s')"
      and ss: "status_synced env (row_id ` set (table s)) old new"
    have logged: "Log (''Plesk API request failed: '' @ msg) \<in> set (trace ?s')"
      if "upstream env ''get'' (DomainStatus (row_id old)) = Rejected msg resp" for msg resp
      using assms old that by (intro performStatusSync_logs) simp_all
    have st: "status new = (if db_fault env (UpdateStatus ''unknown'' (row_id old)) = None
                    then ''unknown'' else status old)"
      if "upstream env ''get'' (DomainStatus (row_id old)) = Rejected msg resp" for msg resp
      using ss that old by (simp add: status_synced_def fetched_status_def)
    from ss have "row_id new = row_id old" "sync_error new = sync_error old"
      by (simp_all add: status_synced_def)
    with logged st show "row_id new = row_id old \<and> sync_error new = sync_error old
           \<and> (\<forall>msg resp.
                 upstream env ''get'' (DomainStatus (row_id old)) = Rejected msg resp \<longrightarrow>
                 status new =
                   (if db_fault env (UpdateStatus ''unknown'' (row_id old)) = None
                    then ''unknown'' else status old)
                 \<and> Log (''Plesk API request failed: '' @ msg) \<in> set (trace ?s'))"
      by blast
  qed
qed

lemma syncDomain_failed_fetch:
  assumes up: "upstream env ''get'' (DomainStatus (d_id d)) = Rejected msg resp"
  shows "table (syncDomain env d s) =
     (case p_name (synced_params (clock s) d) of
        None \<Rightarrow> table s
      | Some n \<Rightarrow>
          if db_fault env (InsertSynced (synced_params (clock s) d) ''unknown'' None) = None
          then insert_synced (clock s) (synced_params (clock s) d) n ''unknown'' None (table s)
          else table s)"
proof -
  obtain q s1 where q: "executeRequest env ''GET'' (DomainStatus (d_id d)) s = (q, s1)"
    by (cases "executeRequest env ''GET'' (DomainStatus (d_id d)) s")
  from executeRequest_result [OF q] up obtain e det st where
    qr: "q = Inr (Failure e det st)" and s1: "table s1 = table s" "clock s1 = clock s"
    by auto
  have f: "fetch_status env d s = ((''unknown'', None), s1)"
    using q qr by (simp add: fetch_status_def)
  show ?thesis
    using f s1
    by (simp add: syncDomain_def syncDomain_try_def execute_def
          split: option.splits sum.splits)
qed

lemmas batch_defs =
  syncDomainBatch_def syncDomain_def syncDomain_try_def fetch_status_def synced_params_def
  insert_synced_def or_else_def truthy_def third_domain_def

text \<open>
  C2. The message of a failed status request is not recorded in the \<open>sync_error\<close> of
  the record. A status run leaves the \<open>sync_error\<close> of every row as it was, and the
  value that \<open>syncDomainBatch\<close> binds for \<open>sync_error\<close> is \<open>null\<close> for every domain,
  every answer of the remote API and every state. For the cached domain 3, held as
  \<open>active\<close>, whose status request times out: after the status run its row has the
  status \<open>unknown\<close> and \<open>sync_error\<close> \<open>NULL\<close>, and the message is on the console
  only; \<open>syncDomainBatch\<close> for the same domain stores the status \<open>unknown\<close> and
  \<open>sync_error\<close> \<open>NULL\<close>.
\<close>

theorem failed_fetch_not_recorded:
  "map sync_error (table (snd (performStatusSync env s))) = map sync_error (table s)
   \<and> snd (fst (fetch_status env d s)) = None
   \<and> upstream flaky ''get'' (DomainStatus 3) = Rejected ''timeout of 30000ms exceeded'' None
   \<and> table (snd (performStatusSync flaky
         (constructed [(row_at 3 30)\<lparr>status := ''active''\<rparr>] 100)))
       = [(row_at 3 30)\<lparr>status := ''unknown'', last_updated := 100, sync_error := None\<rparr>]
   \<and> Log ''Plesk API request failed: timeout of 30000ms exceeded''
       \<in> set (trace (snd (performStatusSync flaky
         (constructed [(row_at 3 30)\<lparr>status := ''active''\<rparr>] 100))))
   \<and> map (\<lambda>r. (row_id r, status r, sync_error r))
         (table (syncDomainBatch flaky [third_domain] (constructed [] 100)))
       = [(3, ''unknown'', None)]"
proof -
  have a: "map sync_error (table (snd (performStatusSync env s))) = map sync_error (table s)"
    by (rule performStatusSync_sync_error)
  have b: "snd (fst (fetch_status env d s)) = None" by (rule fetch_status_binds_null)
  have c: "upstream flaky ''get'' (DomainStatus 3) = Rejected ''timeout of 30000ms exceeded'' None
   \<and> table (snd (performStatusSync flaky
         (constructed [(row_at 3 30)\<lparr>status := ''active''\<rparr>] 100)))
       = [(row_at 3 30)\<lparr>status := ''unknown'', last_updated := 100, sync_error := None\<rparr>]
   \<and> Log ''Plesk API request failed: timeout of 30000ms exceeded''
       \<in> set (trace (snd (performStatusSync flaky
         (constructed [(row_at 3 30)\<lparr>status := ''active''\<rparr>] 100))))
   \<and> map (\<lambda>r. (row_id r, status r, sync_error r))
         (table (syncDomainBatch flaky [third_domain] (constructed [] 100)))
       = [(3, ''unknown'', None)]"
    by (simp add: run_defs batch_defs Let_def)
  from a b c show ?thesis by blast
qed

subsection \<open>Forced refresh\<close>



lemma table_startStatusSync [simp]: "table (startStatusSync s) = table s"
  by (simp add: startStatusSync_def)







subsection \<open>Listing the domains\<close>

text \<open>The method that a call of \<open>listDomains\<close> reaches.\<close>

lemma listDomains_resolves: "listDomains env nm s = listDomains_second env nm s"
  by (simp add: listDomains_def method_named_def class_methods_def)

text \<open>
  The first definition of \<open>listDomains\<close> does what its documentation says. With the
  cache readable and the addresses stored as text: when the query returns records they are returned with
  \<open>fromCache = true\<close>, nothing is requested and the table is left alone; when it
  returns none, a failed fetch yields the fallback data under the same filter, and a
  successful fetch yields the rows read again with \<open>fromCache = false\<close>.
\<close>

lemma row_views_text:
  "(\<And>ips. parse_ip_addresses env ips = Inr ips) \<Longrightarrow>
   row_views env rows = Inr (map (\<lambda>r. row_object r (ip_addresses r)) rows)"
  by (induction rows) (simp_all add: row_view_def)

lemma getDomainsFromCache_reads:
  assumes "dbPool s" "db_fault env GetConnection = None"
    "db_fault env (SelectAll (like_pattern nf)) = None"
    "\<And>ips. parse_ip_addresses env ips = Inr ips"
  shows "getDomainsFromCache env nf s =
         (Inr (map (\<lambda>r. row_object r (ip_addresses r))
                 (select_all (like_pattern nf) (table s))), s)"
  using assms(1-3)
  by (simp add: getDomainsFromCache_def getDomainsFromCache_try_def getConnection_def
        query_all_def row_views_text [OF assms(4)])

lemma listDomains_first_hit:
  assumes "dbPool s" "db_fault env GetConnection = None"
    "db_fault env (SelectAll (like_pattern nf)) = None"
    "\<And>ips. parse_ip_addresses env ips = Inr ips"
    and hit: "select_all (like_pattern nf) (table s) \<noteq> []"
  shows "fst (listDomains_first env nf s) =
           Inr (Listed (map (\<lambda>r. row_object r (ip_addresses r))
                          (select_all (like_pattern nf) (table s)))
                  (''Retrieved '' @ decimal (length (select_all (like_pattern nf) (table s)))
                   @ '' domains from cache'') (Some True))
         \<and> effects (trace (snd (listDomains_first env nf s))) = effects (trace s)
         \<and> table (snd (listDomains_first env nf s)) = table s"
  using hit
  by (simp add: listDomains_first_def listDomains_first_try_def
        getDomainsFromCache_reads [OF assms(1-4)])

lemma listDomains_first_miss:
  assumes "dbPool s" "db_fault env GetConnection = None"
    "db_fault env (SelectAll (like_pattern nf)) = None"
    "\<And>ips. parse_ip_addresses env ips = Inr ips"
    and miss: "select_all (like_pattern nf) (table s) = []"
  shows "(fst (fetchAndStoreDomains env
                 (console ''Cache is empty, fetching domains from Plesk...'' s))
            = Inr (FetchError e) \<longrightarrow>
          fst (listDomains_first env nf s) = Inr (getTestDomains nf))
       \<and> (fst (fetchAndStoreDomains env
                 (console ''Cache is empty, fetching domains from Plesk...'' s))
            = Inr (Fetched n) \<longrightarrow>
          (\<exists>views msg. fst (listDomains_first env nf s) = Inr (Listed views msg (Some False))))"
proof -
  let ?s2 = "console ''Cache is empty, fetching domains from Plesk...'' s"
  obtain r s3 where f: "fetchAndStoreDomains env ?s2 = (r, s3)"
    by (cases "fetchAndStoreDomains env ?s2")
  let ?s4 = "startStatusSync (console ''Starting background status sync...'' s3)"
  obtain r5 s5 where g: "getDomainsFromCache env nf ?s4 = (r5, s5)"
    by (cases "getDomainsFromCache env nf ?s4")
  have "\<exists>views. r5 = Inr views"
    using g by (auto simp: getDomainsFromCache_def split: prod.splits sum.splits)
  then obtain views where r5: "r5 = Inr views" by blast
  show ?thesis
    using miss f g r5
    by (auto simp: listDomains_first_def listDomains_first_try_def
          getDomainsFromCache_reads [OF assms(1-4)])
qed

lemmas list_defs =
  listDomains_def method_named_def class_methods_def listDomains_second_def
  listDomains_first_def listDomains_first_try_def getDomainsFromCache_def
  getDomainsFromCache_try_def query_all_def select_all_def like_pattern_def row_view_def
  row_object_def
  getTestDomains_def test_filter_def testDomains_def truthy_def decimal.simps

text \<open>
  C1. The method that a caller of \<open>listDomains\<close> reaches is the second definition
  in the class body, which forwards the request. With \<open>example.com\<close> cached and the
  remote API working it sends \<open>GET /domains\<close> and returns the answer as it came,
  without \<open>fromCache\<close>, where the first definition would return the cached record
  with \<open>fromCache = true\<close> and send nothing. With an empty cache and the remote API
  refusing connections it returns the failure, where the first definition would return
  the fallback data.
\<close>

theorem listDomains_is_the_forwarder:
  "listDomains env nm s = listDomains_second env nm s
   \<and> fst (listDomains stub None (constructed [cached_example] 100))
     = Inr (Forwarded (Success (Items [example_com, test_org]) 200))
   \<and> trace (snd (listDomains stub None (constructed [cached_example] 100)))
     = [Request ''get'' (Domains None)]
   \<and> fst (listDomains_first stub None (constructed [cached_example] 100))
     = Inr (Listed [row_object cached_example [''192.168.1.100'']]
              ''Retrieved 1 domains from cache'' (Some True))
   \<and> fst (listDomains flaky None (constructed [] 100))
     = Inr (Forwarded (Failure ''connect ECONNREFUSED'' None 500))
   \<and> fst (listDomains_first flaky None (constructed [] 100)) = Inr (getTestDomains None)"
  using listDomains_resolves [of env nm s]
  by (simp add: list_defs fetch_defs flaky_def Let_def)

end
